theory Spec2Isabelle
  imports Main "HOL-Library.Word"
begin

unbundle bit_operations_syntax

section \<open>The ConnectWallet component\<close>

text \<open>
  \<^verbatim>\<open>frontend/src/components/ConnectWallet.vue\<close>.  The click handler reads the
  reactive \<^verbatim>\<open>userAddress\<close> of the wallet store and then performs at most two
  effects: the store's \<^verbatim>\<open>connectWallet()\<close> and a \<^verbatim>\<open>router.push({ name: to })\<close>.
  The effects are recorded, in order, in a trace.  Both effects are awaited promises of
  code outside the component, so whether each of them resolves is a parameter of the
  model (\<open>world\<close>); a rejection ends the handler where it happens.
\<close>

text \<open>JavaScript truthiness of a \<^verbatim>\<open>string\<close> and of a \<^verbatim>\<open>string | undefined\<close>.\<close>

definition truthy :: "string \<Rightarrow> bool" where
  "truthy s = (s \<noteq> [])"

definition truthy_opt :: "string option \<Rightarrow> bool" where
  "truthy_opt v = (case v of None \<Rightarrow> False | Some s \<Rightarrow> truthy s)"

text \<open>\<^verbatim>\<open>props.to || 'home'\<close>: the left operand when it is truthy, else the right one.\<close>

definition js_or :: "string option \<Rightarrow> string \<Rightarrow> string" where
  "js_or v d = (case v of None \<Rightarrow> d | Some s \<Rightarrow> if truthy s then s else d)"

datatype event = ConnectWallet | RouterPush string

datatype completion = Resolved | Rejected

record world =
  connectWallet_resolves :: bool
  routerPush_resolves :: bool

definition routerPush :: "world \<Rightarrow> string \<Rightarrow> event list \<times> completion" where
  "routerPush w to = ([RouterPush to], if routerPush_resolves w then Resolved else Rejected)"

definition connectWalletWithRedirect ::
  "world \<Rightarrow> string \<Rightarrow> string option \<Rightarrow> event list \<times> completion" where
  "connectWalletWithRedirect w to userAddress =
     (if truthy_opt userAddress \<and> truthy to then routerPush w to
      else if truthy_opt userAddress then ([], Resolved)
      else if \<not> connectWallet_resolves w then ([ConnectWallet], Rejected)
      else if truthy to then
        (case routerPush w to of (evs, c) \<Rightarrow> (ConnectWallet # evs, c))
      else ([ConnectWallet], Resolved))"

text \<open>\<^verbatim>\<open>setup(props)\<close>: the handler the component exposes, for the prop \<^verbatim>\<open>to\<close>.\<close>

definition setup_component :: "string option \<Rightarrow> world \<Rightarrow> string option \<Rightarrow> event list \<times> completion" where
  "setup_component props_to = (\<lambda>w userAddress. connectWalletWithRedirect w (js_or props_to ''home'') userAddress)"

section \<open>Errors, hex strings and big numbers\<close>

text \<open>
  The scan code is \<^verbatim>\<open>unnamed/part_000\<close>.  Everything it throws, and everything the
  libraries it calls throw, is a value of one error type.  \<open>InvalidPrivateKey\<close> and
  \<open>InvalidPublicKey\<close> are the two errors of \<^verbatim>\<open>getSharedSecret\<close> (lines 18 and 19),
  \<open>NotEncryptedPayload\<close> and \<open>NoPrivateKey\<close> the two errors of the scan loop (lines 113
  and 116); the others are the errors the specification names for the key utilities, and
  \<open>LibraryError\<close> stands for an exception of ethers or noble.
\<close>

datatype error =
    InvalidPrivateKey | InvalidPublicKey | PointNotOnCurve | PointRecoveryFailed
  | InvalidScalar | MissingPublicKey | NotEncryptedPayload | NoPrivateKey | LibraryError

type_synonym byte = "8 word"

subsection \<open>Hex digits\<close>

definition hexval :: "char \<Rightarrow> nat option" where
  "hexval ch = (let n = (of_char ch :: nat) in
     if 48 \<le> n \<and> n \<le> 57 then Some (n - 48)
     else if 97 \<le> n \<and> n \<le> 102 then Some (n - 87)
     else if 65 \<le> n \<and> n \<le> 70 then Some (n - 55)
     else None)"

definition hexchar :: "nat \<Rightarrow> char" where
  "hexchar d = (if d < 10 then char_of (48 + d) else char_of (87 + d))"

fun hexToNat_acc :: "nat \<Rightarrow> string \<Rightarrow> nat option" where
  "hexToNat_acc acc [] = Some acc"
| "hexToNat_acc acc (ch # cs) =
     (case hexval ch of None \<Rightarrow> None | Some d \<Rightarrow> hexToNat_acc (16 * acc + d) cs)"

definition hexToNat :: "string \<Rightarrow> nat option" where
  "hexToNat s = hexToNat_acc 0 s"

text \<open>The \<open>w\<close> low hex digits of \<open>n\<close>, most significant first, in lower case.\<close>

fun natToHex :: "nat \<Rightarrow> nat \<Rightarrow> string" where
  "natToHex 0 n = []"
| "natToHex (Suc w) n = natToHex w (n div 16) @ [hexchar (n mod 16)]"

text \<open>ethers' \<^verbatim>\<open>isHexString(value)\<close>: the regular expression \<^verbatim>\<open>^0x[0-9A-Fa-f]*$\<close>.\<close>

definition isHexString :: "string \<Rightarrow> bool" where
  "isHexString s = (take 2 s = ''0x'' \<and> list_all (\<lambda>ch. hexval ch \<noteq> None) (drop 2 s))"

text \<open>A 32-byte value as the hex string the protocol passes around: \<^verbatim>\<open>0x\<close> and 64 digits.\<close>

definition hex32 :: "nat \<Rightarrow> string" where
  "hex32 n = ''0x'' @ natToHex 64 n"

subsection \<open>Bytes\<close>

text \<open>The \<open>w\<close> low bytes of \<open>n\<close>, big-endian, and noble's \<^verbatim>\<open>bytesToHex\<close>.\<close>

fun natToBytes :: "nat \<Rightarrow> nat \<Rightarrow> byte list" where
  "natToBytes 0 n = []"
| "natToBytes (Suc w) n = natToBytes w (n div 256) @ [of_nat (n mod 256)]"

definition bytesToHex :: "byte list \<Rightarrow> string" where
  "bytesToHex bs = concat (map (\<lambda>b. natToHex 2 (unat b)) bs)"

text \<open>
  ethers' \<^verbatim>\<open>arrayify\<close> on a string: the bytes of a hex string of even length; anything
  else throws.
\<close>

fun hexPairs :: "string \<Rightarrow> byte list option" where
  "hexPairs [] = Some []"
| "hexPairs [ch] = None"
| "hexPairs (hi # lo # cs) =
     (case (hexval hi, hexval lo, hexPairs cs) of
        (Some h, Some l, Some bs) \<Rightarrow> Some (of_nat (16 * h + l) # bs)
      | _ \<Rightarrow> None)"

definition arrayify :: "string \<Rightarrow> error + byte list" where
  "arrayify s =
     (if \<not> isHexString s then Inl LibraryError
      else (case hexPairs (drop 2 s) of None \<Rightarrow> Inl LibraryError | Some bs \<Rightarrow> Inr bs))"

text \<open>
  ethers' \<^verbatim>\<open>sha256(data)\<close>: the digest of the bytes of \<open>data\<close>, as a hex string.  The
  compression function itself is a library's; it is the parameter \<open>H\<close>, from the bytes
  to the 256-bit digest.
\<close>

definition sha256 :: "(byte list \<Rightarrow> 256 word) \<Rightarrow> string \<Rightarrow> error + string" where
  "sha256 H data =
     (case arrayify data of Inl e \<Rightarrow> Inl e | Inr bs \<Rightarrow> Inr (hex32 (unat (H bs))))"

subsection \<open>ethers' BigNumber\<close>

definition isDigit :: "char \<Rightarrow> bool" where
  "isDigit ch = (let n = (of_char ch :: nat) in 48 \<le> n \<and> n \<le> 57)"

text \<open>The regular expression \<^verbatim>\<open>^-?[0-9]+$\<close>.\<close>

definition isDecimalString :: "string \<Rightarrow> bool" where
  "isDecimalString s =
     (case s of [] \<Rightarrow> False
      | ch # cs \<Rightarrow> if ch = CHR ''-'' then cs \<noteq> [] \<and> list_all isDigit cs else list_all isDigit s)"

fun decToNat_acc :: "nat \<Rightarrow> string \<Rightarrow> nat" where
  "decToNat_acc acc [] = acc"
| "decToNat_acc acc (ch # cs) = decToNat_acc (10 * acc + (of_char ch - 48)) cs"

text \<open>
  \<^verbatim>\<open>BigNumber.from(value)\<close> for a string: a hex string with at least one digit
  (the regular expression \<^verbatim>\<open>^-?0x[0-9a-f]+$\<close>, case-insensitive), negated after a
  minus sign, or a decimal string; every other string, the bare \<^verbatim>\<open>0x\<close> included,
  throws.
\<close>

definition BigNumber_from :: "string \<Rightarrow> error + int" where
  "BigNumber_from s =
     (if isHexString s \<and> drop 2 s \<noteq> [] then
        (case hexToNat (drop 2 s) of None \<Rightarrow> Inl LibraryError | Some n \<Rightarrow> Inr (int n))
      else if take 1 s = ''-'' \<and> isHexString (drop 1 s) \<and> drop 3 s \<noteq> [] then
        (case hexToNat (drop 3 s) of None \<Rightarrow> Inl LibraryError | Some n \<Rightarrow> Inr (- int n))
      else if isDecimalString s then
        (if hd s = CHR ''-'' then Inr (- int (decToNat_acc 0 (tl s))) else Inr (int (decToNat_acc 0 s)))
      else Inl LibraryError)"

text \<open>\<^verbatim>\<open>a.xor(b)\<close> throws on a negative operand.\<close>

definition BigNumber_xor :: "int \<Rightarrow> int \<Rightarrow> error + int" where
  "BigNumber_xor a b = (if a < 0 \<or> b < 0 then Inl LibraryError else Inr (a XOR b))"

text \<open>The digits of \<open>n\<close> without leading zeros (\<^verbatim>\<open>toString(16)\<close>).\<close>

function hexMinimal :: "nat \<Rightarrow> string" where
  "hexMinimal n = (if n < 16 then [hexchar n] else hexMinimal (n div 16) @ [hexchar (n mod 16)])"
  by pat_completeness auto
termination
  by (relation "measure id") auto

declare hexMinimal.simps [simp del]

text \<open>\<^verbatim>\<open>toHexString()\<close>: the shortest hex string with an even number of digits.\<close>

definition toHexString :: "int \<Rightarrow> string" where
  "toHexString v =
     (let h = hexMinimal (nat \<bar>v\<bar>);
          h' = (if odd (length h) then CHR ''0'' # h else h)
      in (if v < 0 then ''-0x'' else ''0x'') @ h')"

text \<open>
  \<^verbatim>\<open>hexZeroPad(value, length)\<close>: throws unless \<open>value\<close> is a hex string of at most
  \<open>length\<close> bytes, and pads it with zeros on the left to \<open>length\<close> bytes.
\<close>

definition hexZeroPad :: "string \<Rightarrow> nat \<Rightarrow> error + string" where
  "hexZeroPad v len =
     (if \<not> isHexString v then Inl LibraryError
      else if length v > 2 * len + 2 then Inl LibraryError
      else Inr (''0x'' @ replicate (2 * len + 2 - length v) CHR ''0'' @ drop 2 v))"

subsection \<open>Decryption and encryption by XOR\<close>

text \<open>
  Lines 125 and 126 of the scan loop:
  \<^verbatim>\<open>plaintext = BigNumber.from(ciphertext).xor(sharedSecret)\<close> and
  \<^verbatim>\<open>randomNumber = hexZeroPad(plaintext.toHexString(), 32)\<close>.
\<close>

definition decrypt_xor :: "string \<Rightarrow> string \<Rightarrow> error + string" where
  "decrypt_xor ciphertext sharedSecret =
     (case BigNumber_from ciphertext of Inl e \<Rightarrow> Inl e | Inr ct \<Rightarrow>
     (case BigNumber_from sharedSecret of Inl e \<Rightarrow> Inl e | Inr s \<Rightarrow>
     (case BigNumber_xor ct s of Inl e \<Rightarrow> Inl e | Inr plaintext \<Rightarrow>
        hexZeroPad (toHexString plaintext) 32)))"

text \<open>
  Modelled from the spec: the sender's encryption is not in the source files.  The
  specification has it as the XOR of the 32-byte random value with the shared secret,
  over the same fixed 32-byte width as the decryption.
\<close>

definition encrypt_xor :: "string \<Rightarrow> string \<Rightarrow> error + string" where
  "encrypt_xor randomNumber sharedSecret =
     (case BigNumber_from randomNumber of Inl e \<Rightarrow> Inl e | Inr r \<Rightarrow>
     (case BigNumber_from sharedSecret of Inl e \<Rightarrow> Inl e | Inr s \<Rightarrow>
     (case BigNumber_xor r s of Inl e \<Rightarrow> Inl e | Inr ciphertext \<Rightarrow>
        hexZeroPad (toHexString ciphertext) 32)))"

section \<open>The curve library\<close>

text \<open>
  \<^verbatim>\<open>@noble/secp256k1\<close> is a library outside the repository.  Its curve is the parameter
  \<open>c\<close> of the model: the field prime, the group order and the base point.  The library's
  curve equation \<open>y\<^sup>2 = x\<^sup>3 + 7\<close> is fixed.  \<open>secp256k1\<close> is the curve the library
  ships; \<open>toy11\<close> is the curve of the same equation over the field of 11 elements, with
  12 points, small enough to be enumerated.
\<close>

record curve =
  prime :: int
  order :: nat
  Gx :: int
  Gy :: int

datatype point = Infinity | Point int int

definition secp256k1 :: curve where
  "secp256k1 = \<lparr> prime = 115792089237316195423570985008687907853269984665640564039457584007908834671663,
     order = 115792089237316195423570985008687907852837564279074904382605163141518161494337,
     Gx = 55066263022277343669578718895168534326250603453777594175500187360389116729240,
     Gy = 32670510020758816978083085130507043184471273380659243275938904335757337482424 \<rparr>"


definition basePoint :: "curve \<Rightarrow> point" where
  "basePoint c = Point (Gx c) (Gy c)"

subsection \<open>Field arithmetic\<close>

text \<open>
  \<^verbatim>\<open>invert(number)\<close>: the inverse modulo the field prime, by the extended Euclidean
  algorithm.  Where no inverse exists the library throws; the point formulas below never
  ask for it on a curve over a prime field, and the model returns 0 there.
\<close>

definition invert :: "curve \<Rightarrow> int \<Rightarrow> int" where
  "invert c number =
     (let a = number mod prime c in
      if coprime a (prime c) then fst (bezw (nat a) (nat (prime c))) mod prime c else 0)"

function modpow :: "int \<Rightarrow> nat \<Rightarrow> int \<Rightarrow> int" where
  "modpow b e m =
     (if e = 0 then 1 mod m
      else if even e then modpow (b * b mod m) (e div 2) m
      else (b * modpow (b * b mod m) (e div 2) m) mod m)"
  by pat_completeness auto
termination
  by (relation "measure (\<lambda>(b, e, m). e)") auto

declare modpow.simps [simp del]


text \<open>\<^verbatim>\<open>sqrtMod(x)\<close>: the power \<open>(P + 1) / 4\<close>, a square root when there is one and \<open>P mod 4 = 3\<close>.\<close>

definition sqrtMod :: "curve \<Rightarrow> int \<Rightarrow> int" where
  "sqrtMod c a = modpow a (nat ((prime c + 1) div 4)) (prime c)"

text \<open>\<^verbatim>\<open>weistrass(x)\<close>: the right-hand side of the curve equation.\<close>

definition weierstrass :: "curve \<Rightarrow> int \<Rightarrow> int" where
  "weierstrass c x = (x * x * x + 7) mod prime c"

subsection \<open>Points\<close>

text \<open>\<^verbatim>\<open>assertValidity\<close>: the coordinates are field elements and satisfy the equation.\<close>

definition on_curve :: "curve \<Rightarrow> point \<Rightarrow> bool" where
  "on_curve c P =
     (case P of Infinity \<Rightarrow> True
      | Point x y \<Rightarrow> 0 \<le> x \<and> x < prime c \<and> 0 \<le> y \<and> y < prime c
                   \<and> (y * y) mod prime c = weierstrass c x)"

definition pneg :: "curve \<Rightarrow> point \<Rightarrow> point" where
  "pneg c P = (case P of Infinity \<Rightarrow> Infinity | Point x y \<Rightarrow> Point x ((- y) mod prime c))"

text \<open>
  Addition of points, in affine coordinates: the slope of the tangent (equal abscissas)
  or of the chord, and the third point of the curve on that line, mirrored.
\<close>

definition slope :: "curve \<Rightarrow> int \<Rightarrow> int \<Rightarrow> int \<Rightarrow> int \<Rightarrow> int" where
  "slope c x1 y1 x2 y2 =
     (if x1 = x2 then (3 * x1 * x1) * invert c (2 * y1)
      else (y2 - y1) * invert c (x2 - x1)) mod prime c"

definition padd :: "curve \<Rightarrow> point \<Rightarrow> point \<Rightarrow> point" where
  "padd c P Q =
     (case P of Infinity \<Rightarrow> Q
      | Point x1 y1 \<Rightarrow>
     (case Q of Infinity \<Rightarrow> P
      | Point x2 y2 \<Rightarrow>
        if x1 = x2 \<and> (y1 + y2) mod prime c = 0 then Infinity
        else
          let l = slope c x1 y1 x2 y2;
              x3 = (l * l - x1 - x2) mod prime c;
              y3 = (l * (x1 - x3) - y1) mod prime c
          in Point x3 y3))"

text \<open>Multiplication by a scalar: double and add, from the most significant bit.\<close>

function pmul :: "curve \<Rightarrow> nat \<Rightarrow> point \<Rightarrow> point" where
  "pmul c k P =
     (if k = 0 then Infinity
      else let h = pmul c (k div 2) P; d = padd c h h
           in if odd k then padd c d P else d)"
  by pat_completeness auto
termination
  by (relation "measure (\<lambda>(c, k, P). k)") auto

declare pmul.simps [simp del]

text \<open>\<^verbatim>\<open>isWithinCurveOrder\<close>, and \<^verbatim>\<open>multiply(scalar)\<close>, which throws on any other scalar.\<close>

definition isWithinCurveOrder :: "curve \<Rightarrow> nat \<Rightarrow> bool" where
  "isWithinCurveOrder c k = (0 < k \<and> k < order c)"

definition multiply :: "curve \<Rightarrow> point \<Rightarrow> nat \<Rightarrow> error + point" where
  "multiply c P k = (if isWithinCurveOrder c k then Inr (pmul c k P) else Inl LibraryError)"

subsection \<open>Encodings of points\<close>

text \<open>The library's zero point has the coordinates \<open>(0, 0)\<close>.\<close>

definition point_x :: "point \<Rightarrow> nat" where
  "point_x P = (case P of Infinity \<Rightarrow> 0 | Point x y \<Rightarrow> nat x)"

definition point_y :: "point \<Rightarrow> nat" where
  "point_y P = (case P of Infinity \<Rightarrow> 0 | Point x y \<Rightarrow> nat y)"

text \<open>
  \<^verbatim>\<open>toHex(isCompressed)\<close> and \<^verbatim>\<open>toRawBytes(isCompressed)\<close>: the parity prefix and \<open>x\<close>,
  or the prefix 04, \<open>x\<close> and \<open>y\<close>; every coordinate takes 32 bytes.
\<close>

definition toHex :: "bool \<Rightarrow> point \<Rightarrow> string" where
  "toHex isCompressed P =
     (if isCompressed then (if even (point_y P) then ''02'' else ''03'') @ natToHex 64 (point_x P)
      else ''04'' @ natToHex 64 (point_x P) @ natToHex 64 (point_y P))"

definition toRawBytes :: "bool \<Rightarrow> point \<Rightarrow> byte list" where
  "toRawBytes isCompressed P =
     (if isCompressed then (if even (point_y P) then 2 else 3) # natToBytes 32 (point_x P)
      else 4 # natToBytes 32 (point_x P) @ natToBytes 32 (point_y P))"

text \<open>
  The point with abscissa \<open>x\<close> and the asked parity of \<open>y\<close>: the square root of the
  right-hand side, negated when its parity is the other one, and the validity check.
\<close>

definition liftX :: "curve \<Rightarrow> int \<Rightarrow> bool \<Rightarrow> point option" where
  "liftX c x wantOdd =
     (let y = sqrtMod c (weierstrass c x);
          y' = (if odd y \<noteq> wantOdd then (- y) mod prime c else y)
      in if on_curve c (Point x y') then Some (Point x y') else None)"

text \<open>
  \<^verbatim>\<open>Point.fromHex(hex)\<close>: 33 bytes with the prefix 02 or 03, or 65 bytes with the prefix
  04; the point is checked to be on the curve.
\<close>

definition Point_fromHex :: "curve \<Rightarrow> string \<Rightarrow> error + point" where
  "Point_fromHex c hex =
     (if length hex = 66 \<and> (take 2 hex = ''02'' \<or> take 2 hex = ''03'') then
        (case hexToNat (drop 2 hex) of None \<Rightarrow> Inl LibraryError
         | Some x \<Rightarrow>
           (case liftX c (int x) (take 2 hex = ''03'') of None \<Rightarrow> Inl LibraryError
            | Some P \<Rightarrow> Inr P))
      else if length hex = 130 \<and> take 2 hex = ''04'' then
        (case (hexToNat (take 64 (drop 2 hex)), hexToNat (drop 66 hex)) of
           (Some x, Some y) \<Rightarrow>
             if on_curve c (Point (int x) (int y)) then Inr (Point (int x) (int y))
             else Inl LibraryError
         | _ \<Rightarrow> Inl LibraryError)
      else Inl LibraryError)"

text \<open>\<^verbatim>\<open>normalizePrivateKey\<close>: 64 hex digits of a scalar within the curve order.\<close>

definition normalizePrivateKey :: "curve \<Rightarrow> string \<Rightarrow> error + nat" where
  "normalizePrivateKey c key =
     (if length key \<noteq> 64 then Inl LibraryError
      else (case hexToNat key of None \<Rightarrow> Inl LibraryError
            | Some k \<Rightarrow> if isWithinCurveOrder c k then Inr k else Inl LibraryError))"

text \<open>
  The library's \<^verbatim>\<open>getSharedSecret(privateA, publicB, isCompressed)\<close>: the point
  \<open>publicB\<close> multiplied by the scalar \<open>privateA\<close>, encoded.
\<close>

definition nobleGetSharedSecret :: "curve \<Rightarrow> string \<Rightarrow> string \<Rightarrow> bool \<Rightarrow> error + byte list" where
  "nobleGetSharedSecret c privateA publicB isCompressed =
     (case Point_fromHex c publicB of Inl e \<Rightarrow> Inl e | Inr b \<Rightarrow>
     (case normalizePrivateKey c privateA of Inl e \<Rightarrow> Inl e | Inr k \<Rightarrow>
     (case multiply c b k of Inl e \<Rightarrow> Inl e | Inr s \<Rightarrow> Inr (toRawBytes isCompressed s))))"

subsection \<open>The group law\<close>




section \<open>Key utilities and the shared secret\<close>

text \<open>
  Modelled from the spec: \<^verbatim>\<open>lengths\<close> of \<^verbatim>\<open>src/utils/utils\<close> is not in the source
  files.  Keys are hex strings of a fixed total length; a private key is 32 bytes
  after \<^verbatim>\<open>0x\<close>, and the public key \<^verbatim>\<open>getSharedSecret\<close> takes is uncompressed, 65 bytes
  after \<^verbatim>\<open>0x\<close> (line 26 strips the two characters and hands the rest to the library).
\<close>

definition lengths_privateKey :: nat where
  "lengths_privateKey = 66"

definition lengths_publicKey :: nat where
  "lengths_publicKey = 132"

text \<open>
  Modelled from the spec: \<^verbatim>\<open>assertValidPoint\<close> of \<^verbatim>\<open>src/utils/utils\<close> is not in the
  source files.  The specification's \<open>validatePublicKeyPoint\<close> fails with
  \<open>PointNotOnCurve\<close> unless the point decodes to the exact coordinate byte lengths and
  satisfies the curve equation.  The result is the error thrown, if any.
\<close>

definition decodeUncompressed :: "string \<Rightarrow> point option" where
  "decodeUncompressed p =
     (let h = (if take 2 p = ''0x'' then drop 2 p else p) in
      if length h = 130 \<and> take 2 h = ''04'' then
        (case (hexToNat (take 64 (drop 2 h)), hexToNat (drop 66 h)) of
           (Some x, Some y) \<Rightarrow> Some (Point (int x) (int y))
         | _ \<Rightarrow> None)
      else None)"

definition assertValidPoint :: "curve \<Rightarrow> string \<Rightarrow> error option" where
  "assertValidPoint c p =
     (case decodeUncompressed p of None \<Rightarrow> Some PointNotOnCurve
      | Some P \<Rightarrow> if on_curve c P then None else Some PointNotOnCurve)"

text \<open>
  Modelled from the spec: \<^verbatim>\<open>assertValidPrivateKey\<close> of \<^verbatim>\<open>src/utils/utils\<close> is not in
  the source files.  The specification's \<open>validatePrivateKey\<close> fails with
  \<open>InvalidPrivateKey\<close> unless the key has exactly the fixed length, is hex-encoded and
  is numerically within \<open>(0, order)\<close>.
\<close>

definition assertValidPrivateKey :: "curve \<Rightarrow> string \<Rightarrow> error option" where
  "assertValidPrivateKey c k =
     (if length k = lengths_privateKey \<and> isHexString k
         \<and> (case hexToNat (drop 2 k) of None \<Rightarrow> False | Some n \<Rightarrow> isWithinCurveOrder c n)
      then None else Some InvalidPrivateKey)"

text \<open>
  \<^verbatim>\<open>getSharedSecret(privateKey, publicKey)\<close>, lines 17 to 29.  The library function of
  line 26 is the parameter \<open>noble\<close>, the hash function of line 28 the parameter \<open>H\<close>.
\<close>

definition getSharedSecret ::
  "curve \<Rightarrow> (string \<Rightarrow> string \<Rightarrow> bool \<Rightarrow> error + byte list) \<Rightarrow> (byte list \<Rightarrow> 256 word)
     \<Rightarrow> string \<Rightarrow> string \<Rightarrow> error + string" where
  "getSharedSecret c noble H privateKey publicKey =
     (if length privateKey \<noteq> lengths_privateKey \<or> \<not> isHexString privateKey then Inl InvalidPrivateKey
      else if length publicKey \<noteq> lengths_publicKey \<or> \<not> isHexString publicKey then Inl InvalidPublicKey
      else
       (case assertValidPoint c publicKey of Some e \<Rightarrow> Inl e | None \<Rightarrow>
       (case assertValidPrivateKey c privateKey of Some e \<Rightarrow> Inl e | None \<Rightarrow>
       (case noble (drop 2 privateKey) (drop 2 publicKey) True of Inl e \<Rightarrow> Inl e
        | Inr sharedSecret \<Rightarrow>
            let sharedSecretHex = bytesToHex sharedSecret
            in sha256 H (''0x'' @ drop 2 sharedSecretHex)))))"

text \<open>The encodings of a private scalar and of a public point as the code's key strings.\<close>

definition privateKeyHexOf :: "nat \<Rightarrow> string" where
  "privateKeyHexOf k = hex32 k"

definition publicKeyHexOf :: "point \<Rightarrow> string" where
  "publicKeyHexOf P = ''0x'' @ toHex False P"

section \<open>Key pairs and the scan loop\<close>

text \<open>
  Modelled from the spec: the class \<^verbatim>\<open>KeyPair\<close> of \<^verbatim>\<open>src/classes/KeyPair\<close> is not in
  the source files.  In the specification a key pair is built from one key, private or
  public, and holds the public key derived from a private one; a key that fails its
  validation is rejected before use.
\<close>

record KeyPair =
  privateKeyHex :: "string option"
  publicKeyHex :: "string option"

definition KeyPair_new :: "curve \<Rightarrow> string \<Rightarrow> error + KeyPair" where
  "KeyPair_new c key =
     (if length key = lengths_privateKey then
        (case assertValidPrivateKey c key of Some e \<Rightarrow> Inl e | None \<Rightarrow>
        (case hexToNat (drop 2 key) of None \<Rightarrow> Inl InvalidPrivateKey
         | Some k \<Rightarrow>
             Inr \<lparr> privateKeyHex = Some key,
                   publicKeyHex = Some (publicKeyHexOf (pmul c k (basePoint c))) \<rparr>))
      else
        (case assertValidPoint c key of Some e \<Rightarrow> Inl e
         | None \<Rightarrow> Inr \<lparr> privateKeyHex = None, publicKeyHex = Some key \<rparr>))"

text \<open>
  Modelled from the spec: \<^verbatim>\<open>KeyPair.getUncompressedFromX\<close> is not in the source files.
  The specification's \<open>recoverUncompressedFromX\<close> takes the \<open>x\<close>-coordinate alone,
  solves for both candidate \<open>y\<close> values, selects the even one and returns the
  uncompressed point; it fails with \<open>PointRecoveryFailed\<close> if no valid \<open>y\<close> exists.
\<close>

definition getUncompressedFromX :: "curve \<Rightarrow> string \<Rightarrow> error + string" where
  "getUncompressedFromX c pkx =
     (case BigNumber_from pkx of Inl e \<Rightarrow> Inl e | Inr x \<Rightarrow>
     (case liftX c x False of None \<Rightarrow> Inl PointRecoveryFailed
      | Some P \<Rightarrow> Inr (publicKeyHexOf P)))"

text \<open>
  Modelled from the spec: \<^verbatim>\<open>mulPublicKey\<close> is not in the source files.  The
  specification's \<open>derivePublicKey\<close> multiplies the held public key by the scalar, a
  32-byte value, and returns a key pair that holds only the resulting public key; it
  fails with \<open>InvalidScalar\<close> if the scalar is zero or not below the curve order.
\<close>

definition mulPublicKey :: "curve \<Rightarrow> KeyPair \<Rightarrow> string \<Rightarrow> error + KeyPair" where
  "mulPublicKey c kp v =
     (case publicKeyHex kp of None \<Rightarrow> Inl MissingPublicKey | Some pk \<Rightarrow>
     (case (if isHexString v then hexToNat (drop 2 v) else None) of None \<Rightarrow> Inl InvalidScalar
      | Some r \<Rightarrow>
          if \<not> isWithinCurveOrder c r then Inl InvalidScalar
          else (case decodeUncompressed pk of None \<Rightarrow> Inl PointNotOnCurve
                | Some P \<Rightarrow>
                    Inr \<lparr> privateKeyHex = None,
                          publicKeyHex = Some (publicKeyHexOf (pmul c r P)) \<rparr>)))"

text \<open>
  Modelled from the spec: \<^verbatim>\<open>address\<close> is not in the source files.  The specification
  has it as the last 20 bytes of a keccak-style hash over the coordinates of the
  uncompressed public key, failing with \<open>MissingPublicKey\<close> if there is no key.  The
  hash function is the parameter \<open>keccak\<close>.
\<close>

definition address :: "(byte list \<Rightarrow> 256 word) \<Rightarrow> KeyPair \<Rightarrow> error + string" where
  "address keccak kp =
     (case publicKeyHex kp of None \<Rightarrow> Inl MissingPublicKey | Some pk \<Rightarrow>
     (case arrayify (''0x'' @ drop 4 pk) of Inl e \<Rightarrow> Inl e
      | Inr bs \<Rightarrow> Inr (''0x'' @ natToHex 40 (unat (keccak bs)))))"

text \<open>An announcement as the loop reads it, and the receiver's wallet.\<close>

record Announcement =
  pkx :: string
  ciphertext :: string

record Wallet =
  privateKey :: string
  publicKey :: string

text \<open>
  The body of the loop, lines 107 to 131, without its clock readings: the value of
  the expression of line 131, the receiving address computed for the announcement, or
  the error thrown on the way.
\<close>

definition computeReceivingAddress ::
  "curve \<Rightarrow> (string \<Rightarrow> string \<Rightarrow> bool \<Rightarrow> error + byte list) \<Rightarrow> (byte list \<Rightarrow> 256 word)
     \<Rightarrow> (byte list \<Rightarrow> 256 word) \<Rightarrow> Wallet \<Rightarrow> Announcement \<Rightarrow> error + string" where
  "computeReceivingAddress c noble H keccak receiver ann =
     (case getUncompressedFromX c (pkx ann) of Inl e \<Rightarrow> Inl e | Inr ephemeralPublicKey \<Rightarrow>
     (case KeyPair_new c (privateKey receiver) of Inl e \<Rightarrow> Inl e | Inr viewingKeyPair \<Rightarrow>
        if \<not> truthy ephemeralPublicKey \<or> \<not> truthy (ciphertext ann) then Inl NotEncryptedPayload
        else
     (case privateKeyHex viewingKeyPair of None \<Rightarrow> Inl NoPrivateKey | Some viewingPrivateKey \<Rightarrow>
        if \<not> truthy viewingPrivateKey then Inl NoPrivateKey
        else
     (case assertValidPoint c ephemeralPublicKey of Some e \<Rightarrow> Inl e | None \<Rightarrow>
     (case getSharedSecret c noble H viewingPrivateKey ephemeralPublicKey of Inl e \<Rightarrow> Inl e
      | Inr sharedSecret \<Rightarrow>
     (case sha256 H sharedSecret of Inl e \<Rightarrow> Inl e | Inr tag \<Rightarrow>
     (case decrypt_xor (ciphertext ann) sharedSecret of Inl e \<Rightarrow> Inl e | Inr randomNumber \<Rightarrow>
     (case KeyPair_new c (publicKey receiver) of Inl e \<Rightarrow> Inl e | Inr spendingKeyPair \<Rightarrow>
     (case mulPublicKey c spendingKeyPair randomNumber of Inl e \<Rightarrow> Inl e
      | Inr stealthKeyPair \<Rightarrow> address keccak stealthKeyPair)))))))))"

text \<open>
  One call of the reducer of line 103.  \<^verbatim>\<open>Date.now()\<close> is read six times; the clock
  is the parameter \<open>now\<close>, from the number of readings so far to the time read.  The
  accumulator is that number and the array \<^verbatim>\<open>totalTime\<close>, which starts as seven zeros.
  An error thrown in the body leaves the reducer, and \<^verbatim>\<open>reduce\<close>, at once.
\<close>

definition scanStep ::
  "curve \<Rightarrow> (string \<Rightarrow> string \<Rightarrow> bool \<Rightarrow> error + byte list) \<Rightarrow> (byte list \<Rightarrow> 256 word)
     \<Rightarrow> (byte list \<Rightarrow> 256 word) \<Rightarrow> (nat \<Rightarrow> int) \<Rightarrow> Wallet
     \<Rightarrow> nat \<times> int list \<Rightarrow> Announcement \<Rightarrow> error + nat \<times> int list" where
  "scanStep c noble H keccak now receiver acc ann =
     (case computeReceivingAddress c noble H keccak receiver ann of Inl e \<Rightarrow> Inl e
      | Inr computedReceivingAddress \<Rightarrow>
          let n = fst acc; totalTime = snd acc;
              t1 = now n; t2 = now (n + 1); t3 = now (n + 2);
              t4 = now (n + 3); t5 = now (n + 4); t6 = now (n + 5);
              tt0 = totalTime[0 := totalTime ! 0 + (t2 - t1)];
              tt1 = tt0[1 := tt0 ! 1 + (t3 - t2)];
              tt2 = tt1[2 := tt1 ! 2 + (t4 - t3)];
              tt3 = tt2[3 := tt2 ! 3 + (t5 - t4)];
              tt4 = tt3[4 := tt3 ! 4 + (t6 - t5)];
              tt5 = tt4[5 := tt4 ! 5 + (t4 - t1)];
              tt6 = tt5[6 := tt5 ! 6 + (t6 - t1 - (t4 - t3))]
          in Inr (n + 6, tt6))"

fun reduceScan ::
  "curve \<Rightarrow> (string \<Rightarrow> string \<Rightarrow> bool \<Rightarrow> error + byte list) \<Rightarrow> (byte list \<Rightarrow> 256 word)
     \<Rightarrow> (byte list \<Rightarrow> 256 word) \<Rightarrow> (nat \<Rightarrow> int) \<Rightarrow> Wallet
     \<Rightarrow> nat \<times> int list \<Rightarrow> Announcement list \<Rightarrow> error + nat \<times> int list" where
  "reduceScan c noble H keccak now receiver acc [] = Inr acc"
| "reduceScan c noble H keccak now receiver acc (ann # anns) =
     (case scanStep c noble H keccak now receiver acc ann of Inl e \<Rightarrow> Inl e
      | Inr acc' \<Rightarrow> reduceScan c noble H keccak now receiver acc' anns)"

text \<open>The test of line 102: the totals after the whole batch, or the error thrown.\<close>

definition scanAnnouncements ::
  "curve \<Rightarrow> (string \<Rightarrow> string \<Rightarrow> bool \<Rightarrow> error + byte list) \<Rightarrow> (byte list \<Rightarrow> 256 word)
     \<Rightarrow> (byte list \<Rightarrow> 256 word) \<Rightarrow> (nat \<Rightarrow> int) \<Rightarrow> Wallet
     \<Rightarrow> Announcement list \<Rightarrow> error + int list" where
  "scanAnnouncements c noble H keccak now receiver announcements =
     (case reduceScan c noble H keccak now receiver (0, [0, 0, 0, 0, 0, 0, 0]) announcements of
        Inl e \<Rightarrow> Inl e
      | Inr acc \<Rightarrow> Inr (snd acc))"

text \<open>
  An announcement whose \<open>x\<close>-coordinate, \<open>2\<^sup>2\<^sup>5\<^sup>6 - 1\<close>, is not a field element of
  secp256k1: no point of the curve has it.
\<close>

definition unrecoverable :: Announcement where
  "unrecoverable = \<lparr> pkx = hex32 115792089237316195423570985008687907853269984665640564039457584007913129639935,
      ciphertext = hex32 1 \<rparr>"

section \<open>Properties of the ConnectWallet component\<close>

lemma js_or_home_truthy: "truthy (js_or props_to ''home'')"
  by (simp add: js_or_def truthy_def split: option.split)

lemma connect_iff_unset:
  "(ConnectWallet \<in> set (fst (connectWalletWithRedirect w to userAddress))) = (\<not> truthy_opt userAddress)"
  by (simp add: connectWalletWithRedirect_def routerPush_def split: prod.split)

text \<open>
  Claim C10.  For every invocation of the handler (any target \<open>to\<close>, any outcome of the
  awaited promises), \<^verbatim>\<open>connectWallet\<close> is invoked exactly when \<^verbatim>\<open>userAddress\<close> is not
  set.  When it is set the trace is empty or the single navigation to \<open>to\<close>, and through
  \<^verbatim>\<open>setup\<close>, whose target \<^verbatim>\<open>props.to || 'home'\<close> is never empty, the trace is exactly the
  navigation to that target: an already connected user is always redirected, and never
  connected again.
\<close>

theorem C10_connect_guard:
  "(ConnectWallet \<in> set (fst (connectWalletWithRedirect w to userAddress))) = (\<not> truthy_opt userAddress)
   \<and> (truthy_opt userAddress \<longrightarrow>
        fst (connectWalletWithRedirect w to userAddress) \<in> {[], [RouterPush to]})
   \<and> js_or props_to ''home'' \<noteq> []
   \<and> (truthy_opt userAddress \<longrightarrow>
        fst (setup_component props_to w userAddress) = [RouterPush (js_or props_to ''home'')])"
proof -
  have t: "truthy (js_or props_to ''home'')" by (rule js_or_home_truthy)
  have a: "truthy_opt userAddress \<longrightarrow>
        fst (connectWalletWithRedirect w to userAddress) \<in> {[], [RouterPush to]}"
    by (simp add: connectWalletWithRedirect_def routerPush_def)
  have b: "truthy_opt userAddress \<longrightarrow>
        fst (setup_component props_to w userAddress) = [RouterPush (js_or props_to ''home'')]"
    using t by (simp add: setup_component_def connectWalletWithRedirect_def routerPush_def)
  from t have c: "js_or props_to ''home'' \<noteq> []" by (simp add: truthy_def)
  show ?thesis using connect_iff_unset a b c by blast
qed

theorem C10_connect_guard_witness:
  "truthy_opt (Some ''0xabc'')
   \<and> ConnectWallet \<notin> set (fst (connectWalletWithRedirect \<lparr>connectWallet_resolves = True, routerPush_resolves = True\<rparr> ''send'' (Some ''0xabc'')))
   \<and> fst (setup_component None \<lparr>connectWallet_resolves = True, routerPush_resolves = True\<rparr> (Some ''0xabc'')) = [RouterPush ''home'']
   \<and> fst (setup_component (Some ''send'') \<lparr>connectWallet_resolves = True, routerPush_resolves = True\<rparr> None) = [ConnectWallet, RouterPush ''send'']"
proof -
  have h: "truthy_opt (Some ''0xabc'')" by (simp add: truthy_opt_def truthy_def)
  have j: "js_or None ''home'' = ''home''" by (simp add: js_or_def)
  have k: "fst (setup_component (Some ''send'') \<lparr>connectWallet_resolves = True, routerPush_resolves = True\<rparr> None) = [ConnectWallet, RouterPush ''send'']"
    by (simp add: setup_component_def connectWalletWithRedirect_def routerPush_def js_or_def truthy_opt_def truthy_def)
  show ?thesis
    using h j k
      C10_connect_guard [of "\<lparr>connectWallet_resolves = True, routerPush_resolves = True\<rparr>" "''send''" "Some ''0xabc''" None]
    by simp
qed

section \<open>Hex strings and big numbers: round trips\<close>

lemma hexval_hexchar: "d < 16 \<Longrightarrow> hexval (hexchar d) = Some d"
  by (auto simp: hexval_def hexchar_def Let_def)

lemma hexToNat_acc_append:
  "hexToNat_acc acc (xs @ ys) =
     (case hexToNat_acc acc xs of None \<Rightarrow> None | Some a \<Rightarrow> hexToNat_acc a ys)"
  by (induction xs arbitrary: acc) (auto split: option.splits)

lemma hexToNat_acc_natToHex:
  "hexToNat_acc acc (natToHex w n) = Some (acc * 16 ^ w + n mod 16 ^ w)"
proof (induction w arbitrary: n)
  case 0
  then show ?case by simp
next
  case (Suc w)
  have "(n div 16) mod 16 ^ w * 16 + n mod 16 = n mod (16 * 16 ^ w)"
    by (metis (no_types) mod_mult2_eq add.commute mult.commute)
  then show ?case
    by (simp add: hexToNat_acc_append Suc hexval_hexchar algebra_simps)
qed

lemma hexToNat_natToHex: "n < 16 ^ w \<Longrightarrow> hexToNat (natToHex w n) = Some n"
  by (simp add: hexToNat_def hexToNat_acc_natToHex)

lemma length_natToHex [simp]: "length (natToHex w n) = w"
  by (induction w arbitrary: n) auto

lemma hexdigits_natToHex: "list_all (\<lambda>ch. hexval ch \<noteq> None) (natToHex w n)"
  by (induction w arbitrary: n) (auto simp: hexval_hexchar)

lemma isHexString_0x_natToHex: "isHexString (''0x'' @ natToHex w n)"
  using hexdigits_natToHex [of w n] by (simp add: isHexString_def)

lemma hexchar_0: "hexchar 0 = CHR ''0''"
  by code_simp

lemma natToHex_zero: "natToHex w 0 = replicate w CHR ''0''"
  by (induction w) (simp_all add: hexchar_0 replicate_append_same)

lemma natToHex_pad: "n < 16 ^ w \<Longrightarrow> natToHex (j + w) n = replicate j CHR ''0'' @ natToHex w n"
proof (induction w arbitrary: n)
  case 0
  then show ?case by (simp add: natToHex_zero)
next
  case (Suc w)
  then have "n div 16 < 16 ^ w"
    by (simp add: less_mult_imp_div_less mult.commute)
  with Suc.IH [of "n div 16"] show ?case by simp
qed

lemma hexMinimal_natToHex:
  "hexMinimal n = natToHex (length (hexMinimal n)) n \<and> n < 16 ^ length (hexMinimal n)
   \<and> 0 < length (hexMinimal n) \<and> (16 \<le> n \<longrightarrow> 16 ^ (length (hexMinimal n) - 1) \<le> n)"
proof (induction n rule: hexMinimal.induct)
  case (1 n)
  show ?case
  proof (cases "n < 16")
    case True
    then show ?thesis by (simp add: hexMinimal.simps [of n])
  next
    case False
    let ?m = "n div 16"
    let ?k = "length (hexMinimal ?m)"
    from False 1 have ih: "hexMinimal ?m = natToHex ?k ?m" "?m < 16 ^ ?k" "0 < ?k"
      "16 \<le> ?m \<longrightarrow> 16 ^ (?k - 1) \<le> ?m" by auto
    have len: "length (hexMinimal n) = Suc ?k"
      using False by (simp add: hexMinimal.simps [of n])
    have a: "hexMinimal n = natToHex (Suc ?k) n"
      using False ih(1) by (simp add: hexMinimal.simps [of n])
    have b: "n < 16 ^ Suc ?k"
      using ih(2) by (simp add: div_less_iff_less_mult mult.commute)
    have "16 ^ ?k \<le> n"
    proof (cases "16 \<le> ?m")
      case True
      with ih(4) have "16 ^ (?k - 1) \<le> ?m" by simp
      then have "16 * 16 ^ (?k - 1) \<le> 16 * ?m" by simp
      also have "\<dots> \<le> n" by simp
      finally show ?thesis using ih(3) by (cases ?k) auto
    next
      case False
      then have "?k = 1" using hexMinimal.simps [of ?m] by simp
      then show ?thesis using \<open>\<not> n < 16\<close> by simp
    qed
    with a b len show ?thesis by simp
  qed
qed

lemma hexZeroPad_toHexString:
  assumes "0 \<le> v" "v < 2 ^ 256"
  shows "hexZeroPad (toHexString v) 32 = Inr (hex32 (nat v))"
proof -
  let ?n = "nat v"
  let ?h = "hexMinimal ?n"
  let ?k = "length ?h"
  have n: "?n < 16 ^ 64" using assms by (simp add: nat_less_iff)
  have h: "?h = natToHex ?k ?n" "?n < 16 ^ ?k" "0 < ?k" "16 \<le> ?n \<longrightarrow> 16 ^ (?k - 1) \<le> ?n"
    using hexMinimal_natToHex [of ?n] by auto
  have k64: "?k \<le> 64"
  proof (cases "16 \<le> ?n")
    case True
    with h(4) have "(16::nat) ^ (?k - 1) \<le> ?n" by blast
    from this n have "(16::nat) ^ (?k - 1) < 16 ^ 64" by (rule le_less_trans)
    then have "?k - 1 < 64" by (simp only: power_strict_increasing_iff one_less_numeral_iff semiring_norm)
    then show ?thesis by simp
  next
    case False
    then have "?k = 1" using hexMinimal.simps [of ?n] by simp
    then show ?thesis by simp
  qed
  define h' where "h' = (if odd ?k then CHR ''0'' # ?h else ?h)"
  define k' where "k' = length h'"
  have k': "k' \<le> 64" "?k \<le> k'"
    using k64 by (auto simp: k'_def h'_def elim: oddE)
  have nk': "?n < 16 ^ k'"
    using h(2) k'(2) by (meson less_le_trans one_le_numeral power_increasing)
  have h'eq: "h' = natToHex k' ?n"
  proof (cases "odd ?k")
    case True
    then have "k' = 1 + ?k" by (simp add: k'_def h'_def)
    then show ?thesis using True natToHex_pad [OF h(2), of 1] h(1) by (simp add: h'_def)
  next
    case False
    then show ?thesis using h(1) by (simp add: k'_def h'_def)
  qed
  have ths: "toHexString v = ''0x'' @ h'"
    using assms(1) by (simp add: toHexString_def Let_def h'_def)
  have "natToHex 64 ?n = replicate (64 - k') CHR ''0'' @ natToHex k' ?n"
    using natToHex_pad [OF nk', of "64 - k'"] k'(1) by simp
  moreover have "isHexString (''0x'' @ h')"
    using isHexString_0x_natToHex [of k' ?n] h'eq by simp
  moreover have "length (''0x'' @ h') = 2 + k'" by (simp add: k'_def)
  ultimately have "hexZeroPad (''0x'' @ h') 32 = Inr (''0x'' @ natToHex 64 ?n)"
    using k'(1) h'eq unfolding hexZeroPad_def by simp
  then show ?thesis by (simp only: ths hex32_def)
qed

lemma not_decimal_0x: "\<not> isDecimalString (''0x'' @ s)"
  by (simp add: isDecimalString_def isDigit_def)

lemma BigNumber_from_hex32: "n < 2 ^ 256 \<Longrightarrow> BigNumber_from (hex32 n) = Inr (int n)"
proof -
  assume "n < 2 ^ 256"
  then have "n < 16 ^ 64" by simp
  then have "hexToNat (natToHex 64 n) = Some n" by (rule hexToNat_natToHex)
  moreover have "natToHex 64 n \<noteq> []"
    using length_natToHex [of 64 n] by (metis length_0_conv zero_neq_numeral)
  ultimately show ?thesis
    using isHexString_0x_natToHex [of 64 n]
    by (simp add: BigNumber_from_def hex32_def)
qed

lemma BigNumber_from_bare_0x: "BigNumber_from ''0x'' = Inl LibraryError"
  by (simp add: BigNumber_from_def isDecimalString_def isDigit_def isHexString_def)

lemma xor32_hex32:
  assumes "a < 2 ^ 256" "b < 2 ^ 256"
  shows "decrypt_xor (hex32 a) (hex32 b) = Inr (hex32 (a XOR b))"
proof -
  have "int a XOR int b < 2 ^ 256"
    using assms by (intro XOR_upper) simp_all
  moreover have "0 \<le> int a XOR int b" by simp
  ultimately have "hexZeroPad (toHexString (int a XOR int b)) 32 = Inr (hex32 (nat (int a XOR int b)))"
    by (intro hexZeroPad_toHexString)
  moreover have "nat (int a XOR int b) = a XOR b"
    by (simp flip: of_nat_xor_eq)
  ultimately show ?thesis
    using assms by (simp add: decrypt_xor_def BigNumber_from_hex32 BigNumber_xor_def)
qed

lemma encrypt_is_xor: "encrypt_xor r s = decrypt_xor r s"
  by (simp add: encrypt_xor_def decrypt_xor_def)

lemma unat_256_less: "unat (w :: 256 word) < 2 ^ 256"
  using unsigned_less [of w, where 'a = nat] by simp

text \<open>
  Claim C5.  For every 32-byte value \<open>r\<close> and every 32-byte shared secret \<open>s\<close>, both as
  the 66-character hex strings the code handles: encrypting \<open>r\<close> with \<open>s\<close> gives the hex
  string of the bitwise XOR, and decrypting that ciphertext with the same \<open>s\<close> (lines
  125 and 126) gives back the hex string of \<open>r\<close>.
\<close>

theorem C5_xor_round_trip:
  fixes r s :: "256 word"
  shows "encrypt_xor (hex32 (unat r)) (hex32 (unat s)) = Inr (hex32 (unat (r XOR s)))
       \<and> decrypt_xor (hex32 (unat (r XOR s))) (hex32 (unat s)) = Inr (hex32 (unat r))"
proof -
  have x: "unat (r XOR s) = unat r XOR unat s"
    by (simp add: unsigned_xor_eq)
  have "unat (r XOR s) XOR unat s = unat r"
    by (simp add: x xor.assoc)
  then show ?thesis
    using xor32_hex32 [OF unat_256_less unat_256_less, of r s]
          xor32_hex32 [OF unat_256_less unat_256_less, of "r XOR s" s]
    by (simp add: encrypt_is_xor x)
qed

section \<open>The shared secret: encodings, validation and negation\<close>

lemma natToHex_2: "natToHex 2 m = [hexchar (m div 16 mod 16), hexchar (m mod 16)]"
  by (simp add: numeral_2_eq_2)

lemma natToHex_Suc_Suc:
  "natToHex (Suc (Suc w)) n = natToHex w (n div 256) @ natToHex 2 (n mod 256)"
proof -
  have a: "n div 16 div 16 = n div 256"
    using div_mult2_eq [of n 16 16] by simp
  have m: "n mod 256 = 16 * (n div 16 mod 16) + n mod 16"
    using mod_mult2_eq [of n 16 16] by simp
  have b: "n mod 256 div 16 = n div 16 mod 16" unfolding m by simp
  have c: "n mod 256 mod 16 = n mod 16" unfolding m by simp
  show ?thesis by (simp add: natToHex_2 a b c)
qed

lemma bytesToHex_append: "bytesToHex (xs @ ys) = bytesToHex xs @ bytesToHex ys"
  by (simp add: bytesToHex_def)

lemma bytesToHex_Cons: "bytesToHex (b # bs) = natToHex 2 (unat b) @ bytesToHex bs"
  by (simp add: bytesToHex_def)

lemma unat_byte_of_nat: "unat (of_nat (n mod 256) :: byte) = n mod 256"
  by (simp add: unat_of_nat)

lemma bytesToHex_natToBytes: "bytesToHex (natToBytes w n) = natToHex (2 * w) n"
proof (induction w arbitrary: n)
  case 0
  then show ?case by (simp add: bytesToHex_def)
next
  case (Suc w)
  have "bytesToHex [of_nat (n mod 256) :: byte] = natToHex 2 (n mod 256)"
    by (simp only: bytesToHex_Cons unat_byte_of_nat) (simp add: bytesToHex_def)
  then show ?case
    using Suc [of "n div 256"]
    by (simp only: natToBytes.simps bytesToHex_append mult_Suc_right add_2_eq_Suc natToHex_Suc_Suc)
qed

lemma hexPairs_append:
  "even (length xs) \<Longrightarrow> hexPairs (xs @ ys) =
     (case hexPairs xs of None \<Rightarrow> None
      | Some a \<Rightarrow> (case hexPairs ys of None \<Rightarrow> None | Some b \<Rightarrow> Some (a @ b)))"
  by (induction xs rule: hexPairs.induct) (auto split: option.splits)

lemma hexPairs_natToHex_2: "m < 256 \<Longrightarrow> hexPairs (natToHex 2 m) = Some [of_nat m]"
proof -
  assume "m < 256"
  then have "m div 16 mod 16 = m div 16" by simp
  then have "16 * (m div 16 mod 16) + m mod 16 = m" by simp
  then show ?thesis by (simp add: natToHex_2 hexval_hexchar)
qed

lemma hexPairs_natToHex: "hexPairs (natToHex (2 * w) n) = Some (natToBytes w n)"
proof (induction w arbitrary: n)
  case 0
  then show ?case by simp
next
  case (Suc w)
  have "hexPairs (natToHex (2 * w) (n div 256) @ natToHex 2 (n mod 256))
          = Some (natToBytes w (n div 256) @ [of_nat (n mod 256)])"
    by (simp add: hexPairs_append Suc hexPairs_natToHex_2)
  then show ?case
    by (simp only: natToBytes.simps mult_Suc_right add_2_eq_Suc natToHex_Suc_Suc)
qed

lemma arrayify_hex32: "arrayify (hex32 n) = Inr (natToBytes 32 n)"
  using hexPairs_natToHex [of 32 n] isHexString_0x_natToHex [of 64 n]
  by (simp add: arrayify_def hex32_def)

lemma sha256_hex32: "sha256 H (hex32 n) = Inr (hex32 (unat (H (natToBytes 32 n))))"
  by (simp add: sha256_def arrayify_hex32)

lemma drop2_bytesToHex_compressed:
  "drop 2 (bytesToHex (toRawBytes True P)) = natToHex 64 (point_x P)"
  using bytesToHex_natToBytes [of 32 "point_x P"]
  by (simp add: toRawBytes_def bytesToHex_Cons)

lemma Point_fromHex_uncompressed:
  assumes "length pub = lengths_publicKey" "isHexString pub" "decodeUncompressed pub = Some P"
  shows "Point_fromHex c (drop 2 pub) = (if on_curve c P then Inr P else Inl LibraryError)"
proof -
  have t: "take 2 pub = ''0x''" using assms(2) by (simp add: isHexString_def)
  have l: "length (drop 2 pub) = 130" using assms(1) by (simp add: lengths_publicKey_def)
  show ?thesis
    using assms(3) l
    by (auto simp: decodeUncompressed_def Point_fromHex_def t Let_def
             split: if_splits option.splits)
qed

lemma normalizePrivateKey_ok:
  assumes "length priv = lengths_privateKey" "hexToNat (drop 2 priv) = Some k" "isWithinCurveOrder c k"
  shows "normalizePrivateKey c (drop 2 priv) = Inr k"
  using assms by (simp add: normalizePrivateKey_def lengths_privateKey_def)

lemma assertValidPrivateKey_ok:
  assumes "length priv = lengths_privateKey" "isHexString priv"
    "hexToNat (drop 2 priv) = Some k" "isWithinCurveOrder c k"
  shows "assertValidPrivateKey c priv = None"
  using assms by (simp add: assertValidPrivateKey_def)

lemma assertValidPoint_ok:
  assumes "decodeUncompressed pub = Some P" "on_curve c P"
  shows "assertValidPoint c pub = None"
  using assms by (simp add: assertValidPoint_def)

lemma nobleGetSharedSecret_value:
  assumes "length priv = lengths_privateKey" "hexToNat (drop 2 priv) = Some k" "isWithinCurveOrder c k"
    "length pub = lengths_publicKey" "isHexString pub" "decodeUncompressed pub = Some P" "on_curve c P"
  shows "nobleGetSharedSecret c (drop 2 priv) (drop 2 pub) isCompressed
           = Inr (toRawBytes isCompressed (pmul c k P))"
  using Point_fromHex_uncompressed [OF assms(4,5,6), of c] normalizePrivateKey_ok [OF assms(1,2,3)] assms(3,7)
  by (simp add: nobleGetSharedSecret_def multiply_def)

lemma getSharedSecret_value:
  assumes "length priv = lengths_privateKey" "isHexString priv"
    "hexToNat (drop 2 priv) = Some k" "isWithinCurveOrder c k"
    "length pub = lengths_publicKey" "isHexString pub" "decodeUncompressed pub = Some P" "on_curve c P"
  shows "getSharedSecret c (nobleGetSharedSecret c) H priv pub
           = Inr (hex32 (unat (H (natToBytes 32 (point_x (pmul c k P))))))"
proof -
  have "sha256 H (''0x'' @ drop 2 (bytesToHex (toRawBytes True (pmul c k P))))
          = Inr (hex32 (unat (H (natToBytes 32 (point_x (pmul c k P))))))"
    using sha256_hex32 [of H "point_x (pmul c k P)"]
    by (simp only: drop2_bytesToHex_compressed hex32_def)
  then show ?thesis
    using assms(1,2,5,6)
      assertValidPoint_ok [OF assms(7,8)] assertValidPrivateKey_ok [OF assms(1,2,3,4)]
      nobleGetSharedSecret_value [OF assms(1,3,4,5,6,7,8), of True]
    by (simp add: getSharedSecret_def Let_def)
qed

subsection \<open>Canonical key strings\<close>

lemma privateKeyHexOf_props:
  assumes "k < 2 ^ 256"
  shows "length (privateKeyHexOf k) = lengths_privateKey" "isHexString (privateKeyHexOf k)"
    "hexToNat (drop 2 (privateKeyHexOf k)) = Some k"
proof -
  from assms have "k < 16 ^ 64" by simp
  then show "hexToNat (drop 2 (privateKeyHexOf k)) = Some k"
    by (simp add: privateKeyHexOf_def hex32_def hexToNat_natToHex)
  show "length (privateKeyHexOf k) = lengths_privateKey"
    by (simp add: privateKeyHexOf_def hex32_def lengths_privateKey_def)
  show "isHexString (privateKeyHexOf k)"
    by (simp only: privateKeyHexOf_def hex32_def isHexString_0x_natToHex)
qed

lemma hexval_04: "hexval CHR ''0'' = Some 0" "hexval CHR ''4'' = Some 4"
  by (simp_all add: hexval_def)

lemma publicKeyHexOf_props:
  assumes "0 \<le> x" "x < 2 ^ 256" "0 \<le> y" "y < 2 ^ 256"
  shows "length (publicKeyHexOf (Point x y)) = lengths_publicKey"
    "isHexString (publicKeyHexOf (Point x y))"
    "decodeUncompressed (publicKeyHexOf (Point x y)) = Some (Point x y)"
proof -
  have x: "nat x < 16 ^ 64" and y: "nat y < 16 ^ 64" using assms by (simp_all add: nat_less_iff)
  show "length (publicKeyHexOf (Point x y)) = lengths_publicKey"
    by (simp add: publicKeyHexOf_def toHex_def lengths_publicKey_def)
  show "isHexString (publicKeyHexOf (Point x y))"
    using hexdigits_natToHex [of 64 "nat x"] hexdigits_natToHex [of 64 "nat y"]
    by (simp add: publicKeyHexOf_def toHex_def isHexString_def point_x_def point_y_def hexval_04)
  show "decodeUncompressed (publicKeyHexOf (Point x y)) = Some (Point x y)"
    using assms(1,3) hexToNat_natToHex [OF x] hexToNat_natToHex [OF y]
    by (simp add: publicKeyHexOf_def toHex_def decodeUncompressed_def point_x_def point_y_def)
qed

subsection \<open>Negation of points\<close>

lemma invert_mod: "invert c (a mod prime c) = invert c a"
  by (simp add: invert_def)

lemma invert_cong: "a mod prime c = b mod prime c \<Longrightarrow> invert c a = invert c b"
  by (simp add: invert_def)

lemma invert_range: "0 < prime c \<Longrightarrow> 0 \<le> invert c a \<and> invert c a < prime c"
  by (simp add: invert_def Let_def)

lemma invert_correct:
  assumes "0 < prime c" "coprime (a mod prime c) (prime c)"
  shows "(invert c a * a) mod prime c = 1 mod prime c"
proof -
  let ?p = "prime c"
  let ?a = "a mod ?p"
  let ?u = "fst (bezw (nat ?a) (nat ?p))"
  let ?v = "snd (bezw (nat ?a) (nat ?p))"
  have a0: "0 \<le> ?a" using assms(1) by simp
  have "gcd (nat ?a) (nat ?p) = 1"
    using assms a0 by (metis coprime_int_iff coprime_iff_gcd_eq_1 int_nat_eq less_imp_le)  
  then have "?u * int (nat ?a) + ?v * int (nat ?p) = 1"
    using bezw_aux [of "nat ?a" "nat ?p"] by simp
  then have e: "?u * ?a + ?v * ?p = 1" using a0 assms(1) by simp
  have "(?u * ?a) mod ?p = (?u * ?a + ?v * ?p) mod ?p" by simp
  with e have "(?u * ?a) mod ?p = 1 mod ?p" by simp
  then have "((?u mod ?p) * a) mod ?p = 1 mod ?p"
    by (simp add: mod_mult_right_eq mod_mult_left_eq)
  then show ?thesis using assms(2) by (simp add: invert_def)
qed

lemma inverse_unique:
  fixes p :: int
  assumes "(u * a) mod p = 1 mod p" "(v * a) mod p = 1 mod p"
  shows "u mod p = v mod p"
proof -
  have "u mod p = (u * (1 mod p)) mod p" by (simp add: mod_mult_right_eq)
  also have "\<dots> = (u * ((v * a) mod p)) mod p" by (simp only: assms(2))
  also have "\<dots> = (v * (u * a)) mod p" by (simp add: mod_mult_right_eq mult.left_commute)
  also have "\<dots> = (v * ((u * a) mod p)) mod p" by (simp add: mod_mult_right_eq)
  also have "\<dots> = (v * (1 mod p)) mod p" by (simp only: assms(1))
  also have "\<dots> = v mod p" by (simp add: mod_mult_right_eq)
  finally show ?thesis .
qed

lemma invert_minus:
  assumes "0 < prime c"
  shows "invert c (- a) = (- invert c a) mod prime c"
proof -
  let ?p = "prime c"
  have cop: "coprime ((- a) mod ?p) ?p = coprime (a mod ?p) ?p"
    by (metis coprime_minus_left_iff gcd_red_int coprime_iff_gcd_eq_1 gcd.commute) 
  show ?thesis
  proof (cases "coprime (a mod ?p) ?p")
    case False
    then show ?thesis using cop by (simp add: invert_def)
  next
    case True
    then have c2: "coprime ((- a) mod ?p) ?p" using cop by simp
    have 1: "(invert c (- a) * (- a)) mod ?p = 1 mod ?p"
      by (rule invert_correct [OF assms c2])
    have "(invert c a * a) mod ?p = 1 mod ?p"
      by (rule invert_correct [OF assms True])
    then have 2: "((- invert c a) * (- a)) mod ?p = 1 mod ?p" by simp
    have "invert c (- a) mod ?p = (- invert c a) mod ?p"
      by (rule inverse_unique [OF 1 2])
    then show ?thesis using invert_range [OF assms, of "- a"] by simp
  qed
qed

lemma pneg_Infinity [simp]: "pneg c Infinity = Infinity"
  by (simp add: pneg_def)

lemma pneg_Point: "pneg c (Point x y) = Point x ((- y) mod prime c)"
  by (simp add: pneg_def)

lemma point_x_pneg [simp]: "point_x (pneg c P) = point_x P"
  by (cases P) (simp_all add: pneg_def point_x_def)

lemma on_curve_pneg:
  assumes "0 < prime c" "on_curve c P"
  shows "on_curve c (pneg c P)"
proof (cases P)
  case Infinity
  then show ?thesis by (simp add: on_curve_def)
next
  case (Point x y)
  have "((- y) mod prime c * ((- y) mod prime c)) mod prime c = (y * y) mod prime c"
    by (simp add: mod_mult_eq)
  then show ?thesis using assms Point by (simp add: on_curve_def pneg_def)
qed

lemma pneg_pneg:
  assumes "on_curve c P"
  shows "pneg c (pneg c P) = P"
  using assms by (cases P) (auto simp: pneg_def on_curve_def mod_minus_eq)

lemma slope_neg_tangent:
  assumes "0 < prime c"
  shows "(3 * x * x * invert c (2 * ((- y) mod prime c))) mod prime c
           = (- ((3 * x * x * invert c (2 * y)) mod prime c)) mod prime c"
proof -
  let ?p = "prime c"
  have "(2 * ((- y) mod ?p)) mod ?p = (- (2 * y)) mod ?p"
    by (simp add: mod_mult_right_eq)
  then have "invert c (2 * ((- y) mod ?p)) = invert c (- (2 * y))"
    by (rule invert_cong)
  also have "\<dots> = (- invert c (2 * y)) mod ?p" by (rule invert_minus [OF assms])
  finally have "(3 * x * x * invert c (2 * ((- y) mod ?p))) mod ?p
      = (3 * x * x * ((- invert c (2 * y)) mod ?p)) mod ?p" by simp
  also have "\<dots> = (3 * x * x * (- invert c (2 * y))) mod ?p" by (simp add: mod_mult_right_eq)
  also have "\<dots> = (- (3 * x * x * invert c (2 * y))) mod ?p" by simp
  also have "\<dots> = (- ((3 * x * x * invert c (2 * y)) mod ?p)) mod ?p" by (simp add: mod_minus_eq)
  finally show ?thesis .
qed

lemma slope_neg_chord:
  "(((- y2) mod prime c - (- y1) mod prime c) * u) mod prime c
     = (- (((y2 - y1) * u) mod prime c)) mod prime c"
proof -
  let ?p = "prime c"
  have 1: "(((- y2) mod ?p - (- y1) mod ?p) * u) mod ?p
             = ((((- y2) mod ?p - (- y1) mod ?p) mod ?p) * u) mod ?p"
    by (simp only: mod_mult_left_eq)
  have 2: "((- y2) mod ?p - (- y1) mod ?p) mod ?p = (- y2 - - y1) mod ?p"
    by (rule mod_diff_eq)
  have 3: "- y2 - - y1 = - (y2 - y1)" by simp
  have 4: "((- (y2 - y1)) mod ?p * u) mod ?p = ((- (y2 - y1)) * u) mod ?p"
    by (rule mod_mult_left_eq)
  have 5: "(- (y2 - y1)) * u = - ((y2 - y1) * u)" by (rule mult_minus_left)
  have 6: "(- ((y2 - y1) * u)) mod ?p = (- (((y2 - y1) * u) mod ?p)) mod ?p"
    by (rule mod_minus_eq [symmetric])
  show ?thesis by (simp only: 1 2 3 4 5 6)
qed

lemma coords_neg:
  fixes p :: int
  assumes "l' = (- l) mod p"
  shows "(l' * l' - x1 - x2) mod p = (l * l - x1 - x2) mod p"
    and "(l' * (x1 - (l * l - x1 - x2) mod p) - (- y1) mod p) mod p
           = (- ((l * (x1 - (l * l - x1 - x2) mod p) - y1) mod p)) mod p"
proof -
  have "(l' * l') mod p = (l * l) mod p"
    unfolding assms by (simp add: mod_mult_eq)
  then have "((l' * l') mod p - (x1 + x2)) mod p = ((l * l) mod p - (x1 + x2)) mod p"
    by (simp only:)
  then have "(l' * l' - (x1 + x2)) mod p = (l * l - (x1 + x2)) mod p"
    by (simp only: mod_diff_left_eq)
  then show "(l' * l' - x1 - x2) mod p = (l * l - x1 - x2) mod p"
    by (simp only: diff_diff_eq)
  let ?d = "x1 - (l * l - x1 - x2) mod p"
  have "(l' * ?d - (- y1) mod p) mod p = ((l' * ?d) mod p - (- y1) mod p) mod p"
    by (simp add: mod_diff_left_eq)
  also have "(l' * ?d) mod p = (- (l * ?d)) mod p"
    unfolding assms by (simp add: mod_mult_left_eq)
  also have "((- (l * ?d)) mod p - (- y1) mod p) mod p = (- (l * ?d) - (- y1)) mod p"
    by (simp add: mod_diff_eq)
  also have "\<dots> = (- (l * ?d - y1)) mod p" by simp
  also have "\<dots> = (- ((l * ?d - y1) mod p)) mod p" by (simp add: mod_minus_eq)
  finally show "(l' * ?d - (- y1) mod p) mod p = (- ((l * ?d - y1) mod p)) mod p" .
qed

lemma sum_neg_zero:
  fixes p :: int
  shows "(((- y1) mod p + (- y2) mod p) mod p = 0) = ((y1 + y2) mod p = 0)"
proof -
  have "((- y1) mod p + (- y2) mod p) mod p = (- (y1 + y2)) mod p"
    by (simp add: mod_add_eq)
  moreover have "(p dvd - (y1 + y2)) = (p dvd (y1 + y2))"
    by (rule dvd_minus_iff)
  then have "((- (y1 + y2)) mod p = 0) = ((y1 + y2) mod p = 0)"
    unfolding dvd_eq_mod_eq_0 .
  ultimately show ?thesis by (simp only:)
qed

lemma padd_Point_opp:
  "x1 = x2 \<and> (y1 + y2) mod prime c = 0 \<Longrightarrow> padd c (Point x1 y1) (Point x2 y2) = Infinity"
  by (simp add: padd_def)

lemma padd_Point_gen:
  "\<not> (x1 = x2 \<and> (y1 + y2) mod prime c = 0) \<Longrightarrow>
   padd c (Point x1 y1) (Point x2 y2) =
     Point ((slope c x1 y1 x2 y2 * slope c x1 y1 x2 y2 - x1 - x2) mod prime c)
        ((slope c x1 y1 x2 y2
            * (x1 - (slope c x1 y1 x2 y2 * slope c x1 y1 x2 y2 - x1 - x2) mod prime c) - y1)
          mod prime c)"
  by (simp add: padd_def Let_def)

lemma slope_neg:
  assumes "0 < prime c"
  shows "slope c x1 ((- y1) mod prime c) x2 ((- y2) mod prime c)
           = (- slope c x1 y1 x2 y2) mod prime c"
proof (cases "x1 = x2")
  case True
  then show ?thesis
    using slope_neg_tangent [OF assms, of x1 y1] by (simp add: slope_def)
next
  case False
  then show ?thesis
    using slope_neg_chord [of y2 c y1 "invert c (x2 - x1)"] by (simp add: slope_def)
qed

lemma padd_pneg:
  assumes "0 < prime c"
  shows "padd c (pneg c P) (pneg c Q) = pneg c (padd c P Q)"
proof (cases P)
  case Infinity
  then show ?thesis by (simp add: padd_def)
next
  case P: (Point x1 y1)
  show ?thesis
  proof (cases Q)
    case Infinity
    then show ?thesis using P by (simp add: padd_def pneg_def)
  next
    case Q: (Point x2 y2)
    let ?p = "prime c"
    let ?l = "slope c x1 y1 x2 y2"
    let ?l' = "slope c x1 ((- y1) mod ?p) x2 ((- y2) mod ?p)"
    have ll: "?l' = (- ?l) mod ?p" by (rule slope_neg [OF assms])
    note cn = coords_neg(1) [OF ll] coords_neg(2) [OF ll]
    show ?thesis
    proof (cases "x1 = x2 \<and> (y1 + y2) mod ?p = 0")
      case True
      then have c2: "x1 = x2 \<and> ((- y1) mod ?p + (- y2) mod ?p) mod ?p = 0"
        unfolding sum_neg_zero .
      show ?thesis
        unfolding P Q pneg_Point padd_Point_opp [OF True] padd_Point_opp [OF c2] pneg_Infinity ..
    next
      case False
      then have c2: "\<not> (x1 = x2 \<and> ((- y1) mod ?p + (- y2) mod ?p) mod ?p = 0)"
        unfolding sum_neg_zero .
      show ?thesis
        unfolding P Q pneg_Point padd_Point_gen [OF False] padd_Point_gen [OF c2] cn ..
    qed
  qed
qed

lemma pmul_pneg:
  assumes "0 < prime c"
  shows "pmul c k (pneg c P) = pneg c (pmul c k P)"
  using assms
proof (induction c k P rule: pmul.induct)
  case (1 c k P)
  show ?case
  proof (cases "k = 0")
    case True
    then show ?thesis by (simp add: pmul.simps [of c 0])
  next
    case False
    with 1 have ih: "pmul c (k div 2) (pneg c P) = pneg c (pmul c (k div 2) P)" by simp
    show ?thesis
      using False 1(2)
      by (simp add: pmul.simps [of c k] ih Let_def padd_pneg)
  qed
qed

lemma hex32_inject: "a < 2 ^ 256 \<Longrightarrow> b < 2 ^ 256 \<Longrightarrow> hex32 a = hex32 b \<Longrightarrow> a = b"
proof -
  assume a: "a < 2 ^ 256" and b: "b < 2 ^ 256" and e: "hex32 a = hex32 b"
  from a have a': "a < 16 ^ 64" by simp
  from b have b': "b < 16 ^ 64" by simp
  have ha: "hexToNat (natToHex 64 a) = Some a" using a' by (rule hexToNat_natToHex)
  have hb: "hexToNat (natToHex 64 b) = Some b" using b' by (rule hexToNat_natToHex)
  from e have "natToHex 64 a = natToHex 64 b" unfolding hex32_def by (rule same_append_eq [THEN iffD1])
  then have "hexToNat (natToHex 64 a) = hexToNat (natToHex 64 b)" by (rule arg_cong)
  then have "Some a = Some b" unfolding ha hb .
  then show "a = b" by (rule option.inject [THEN iffD1])
qed

lemma pmul_0: "pmul c 0 P = Infinity"
  by (simp add: pmul.simps [of c 0])

lemma padd_Infinity_left: "padd c Infinity Q = Q"
  by (simp add: padd_def)

lemma pmul_1: "pmul c (Suc 0) P = P"
  by (simp add: pmul.simps [of c "Suc 0"] pmul_0 padd_Infinity_left)

lemma publicKeyHexOf_on_curve:
  assumes "prime c \<le> 2 ^ 256" "on_curve c P" "P \<noteq> Infinity"
  shows "length (publicKeyHexOf P) = lengths_publicKey"
    "isHexString (publicKeyHexOf P)"
    "decodeUncompressed (publicKeyHexOf P) = Some P"
proof -
  from assms(3) obtain x y where P: "P = Point x y" by (cases P) auto
  from assms(1,2) have "0 \<le> x" "x < 2 ^ 256" "0 \<le> y" "y < 2 ^ 256"
    by (auto simp: on_curve_def P)
  then show "length (publicKeyHexOf P) = lengths_publicKey"
    "isHexString (publicKeyHexOf P)"
    "decodeUncompressed (publicKeyHexOf P) = Some P"
    unfolding P by (rule publicKeyHexOf_props)+
qed

lemma pneg_finite: "P \<noteq> Infinity \<Longrightarrow> pneg c P \<noteq> Infinity"
  by (cases P) (simp_all add: pneg_def)

text \<open>
  Claim C9.  For every valid private key (a 66-character hex string of a scalar \<open>a\<close>
  within the curve order) and every valid public key \<open>B\<close> (a 132-character hex string
  of a point on the curve), the shared secret is the same for the public key \<open>B'\<close> with
  the same \<open>x\<close> and the negated \<open>y\<close>: the secret is the hash of the 32 bytes of the
  \<open>x\<close>-coordinate of the product \<open>a B\<close>.
\<close>

theorem C9_parity_independence:
  assumes "0 < prime c"
    and "length priv = lengths_privateKey" "isHexString priv"
        "hexToNat (drop 2 priv) = Some a" "isWithinCurveOrder c a"
    and "length pub = lengths_publicKey" "isHexString pub"
        "decodeUncompressed pub = Some B" "on_curve c B"
    and "length pub' = lengths_publicKey" "isHexString pub'"
        "decodeUncompressed pub' = Some (pneg c B)"
  shows "getSharedSecret c (nobleGetSharedSecret c) H priv pub'
           = getSharedSecret c (nobleGetSharedSecret c) H priv pub
       \<and> getSharedSecret c (nobleGetSharedSecret c) H priv pub
           = Inr (hex32 (unat (H (natToBytes 32 (point_x (pmul c a B))))))"
proof -
  have n: "on_curve c (pneg c B)" by (rule on_curve_pneg [OF assms(1,9)])
  have "getSharedSecret c (nobleGetSharedSecret c) H priv pub'
          = Inr (hex32 (unat (H (natToBytes 32 (point_x (pmul c a (pneg c B)))))))"
    by (rule getSharedSecret_value [OF assms(2,3,4,5) assms(10,11,12) n])
  moreover have "point_x (pmul c a (pneg c B)) = point_x (pmul c a B)"
    by (simp add: pmul_pneg [OF assms(1)])
  moreover have "getSharedSecret c (nobleGetSharedSecret c) H priv pub
          = Inr (hex32 (unat (H (natToBytes 32 (point_x (pmul c a B))))))"
    by (rule getSharedSecret_value [OF assms(2,3,4,5) assms(6,7,8,9)])
  ultimately show ?thesis by simp
qed

lemma mod_eq_by_quotients:
  fixes p :: int
  assumes "a = q1 * p + r" "b = q2 * p + r"
  shows "a mod p = b mod p"
  unfolding assms by simp

lemma secp256k1_fields:
  "prime secp256k1 = 115792089237316195423570985008687907853269984665640564039457584007908834671663"
  "order secp256k1 = 115792089237316195423570985008687907852837564279074904382605163141518161494337"
  "Gx secp256k1 = 55066263022277343669578718895168534326250603453777594175500187360389116729240"
  "Gy secp256k1 = 32670510020758816978083085130507043184471273380659243275938904335757337482424"
  by (simp_all add: secp256k1_def)

lemma secp256k1_G_equation:
  "(Gy secp256k1 * Gy secp256k1) mod prime secp256k1
     = (Gx secp256k1 * Gx secp256k1 * Gx secp256k1 + 7) mod prime secp256k1"
  unfolding secp256k1_fields
  by (rule mod_eq_by_quotients [where
        ?q1.0 = 9217920084583157935602994580951900810186344190718383666107426471107247357458
        and ?q2.0 = 1442042049659660869506300006036683750029629333882594701370927246876626245108445140822412359839636311708589143988241317295940670619760105320846347035878395
        and r = 32748224938747404814623910738487752935528512903530129802856995983256684603122])
     simp_all

lemma secp256k1_G_on_curve: "on_curve secp256k1 (basePoint secp256k1)"
proof -
  have "0 \<le> Gx secp256k1" "Gx secp256k1 < prime secp256k1"
       "0 \<le> Gy secp256k1" "Gy secp256k1 < prime secp256k1"
    by (simp_all add: secp256k1_fields)
  then show ?thesis
    using secp256k1_G_equation by (simp add: on_curve_def basePoint_def weierstrass_def)
qed

lemma secp256k1_prime_bounds: "0 < prime secp256k1" "prime secp256k1 \<le> 2 ^ 256"
  by (simp_all add: secp256k1_fields)

lemma secp256k1_one_valid: "isWithinCurveOrder secp256k1 1"
  by (simp add: isWithinCurveOrder_def secp256k1_fields)

lemma basePoint_finite: "basePoint c \<noteq> Infinity"
  by (simp add: basePoint_def)

theorem C9_parity_independence_witness:
  "\<forall>H. getSharedSecret secp256k1 (nobleGetSharedSecret secp256k1) H (privateKeyHexOf 1)
          (publicKeyHexOf (pneg secp256k1 (basePoint secp256k1)))
        = getSharedSecret secp256k1 (nobleGetSharedSecret secp256k1) H (privateKeyHexOf 1)
          (publicKeyHexOf (basePoint secp256k1))"
proof
  fix H
  let ?c = secp256k1
  let ?G = "basePoint ?c"
  have k: "(1::nat) < 2 ^ 256" by simp
  note p = secp256k1_prime_bounds
  note G = secp256k1_G_on_curve
  have nG: "on_curve ?c (pneg ?c ?G)" by (rule on_curve_pneg [OF p(1) G])
  note a = privateKeyHexOf_props [OF k]
  note b = publicKeyHexOf_on_curve [OF p(2) G basePoint_finite]
  note b' = publicKeyHexOf_on_curve [OF p(2) nG pneg_finite [OF basePoint_finite]]
  show "getSharedSecret ?c (nobleGetSharedSecret ?c) H (privateKeyHexOf 1) (publicKeyHexOf (pneg ?c ?G))
        = getSharedSecret ?c (nobleGetSharedSecret ?c) H (privateKeyHexOf 1) (publicKeyHexOf ?G)"
    by (rule C9_parity_independence [OF p(1) a secp256k1_one_valid b G b', THEN conjunct1])
qed

section \<open>The shared secret: validation order and hash input\<close>

lemma length_natToBytes [simp]: "length (natToBytes w n) = w"
  by (induction w arbitrary: n) auto

lemma getSharedSecret_bad_private:
  "length priv \<noteq> lengths_privateKey \<or> \<not> isHexString priv \<Longrightarrow>
   getSharedSecret c noble H priv pub = Inl InvalidPrivateKey"
  by (auto simp: getSharedSecret_def)

lemma getSharedSecret_bad_public:
  "length priv = lengths_privateKey \<Longrightarrow> isHexString priv \<Longrightarrow>
   length pub \<noteq> lengths_publicKey \<or> \<not> isHexString pub \<Longrightarrow>
   getSharedSecret c noble H priv pub = Inl InvalidPublicKey"
  by (auto simp: getSharedSecret_def)

lemma assertValidPoint_error: "assertValidPoint c pub \<noteq> None \<Longrightarrow> assertValidPoint c pub = Some PointNotOnCurve"
  by (auto simp: assertValidPoint_def split: option.splits if_splits)

lemma assertValidPrivateKey_error:
  "assertValidPrivateKey c priv \<noteq> None \<Longrightarrow> assertValidPrivateKey c priv = Some InvalidPrivateKey"
  by (auto simp: assertValidPrivateKey_def split: if_splits)

lemma getSharedSecret_bad_point:
  "length priv = lengths_privateKey \<Longrightarrow> isHexString priv \<Longrightarrow>
   length pub = lengths_publicKey \<Longrightarrow> isHexString pub \<Longrightarrow>
   assertValidPoint c pub \<noteq> None \<Longrightarrow>
   getSharedSecret c noble H priv pub = Inl PointNotOnCurve"
  using assertValidPoint_error [of c pub] by (simp add: getSharedSecret_def)

lemma getSharedSecret_bad_scalar:
  "length priv = lengths_privateKey \<Longrightarrow> isHexString priv \<Longrightarrow>
   length pub = lengths_publicKey \<Longrightarrow> isHexString pub \<Longrightarrow>
   assertValidPoint c pub = None \<Longrightarrow> assertValidPrivateKey c priv \<noteq> None \<Longrightarrow>
   getSharedSecret c noble H priv pub = Inl InvalidPrivateKey"
  using assertValidPrivateKey_error [of c priv] by (simp add: getSharedSecret_def)

lemma origin_not_on_secp256k1: "\<not> on_curve secp256k1 (Point 0 0)"
  by (simp add: on_curve_def weierstrass_def secp256k1_fields)

lemma origin_key_props:
  "length (publicKeyHexOf (Point 0 0)) = lengths_publicKey"
  "isHexString (publicKeyHexOf (Point 0 0))"
  "decodeUncompressed (publicKeyHexOf (Point 0 0)) = Some (Point 0 0)"
  by (rule publicKeyHexOf_props; simp)+

lemma origin_rejected: "assertValidPoint secp256k1 (publicKeyHexOf (Point 0 0)) \<noteq> None"
  using origin_not_on_secp256k1 by (simp add: assertValidPoint_def origin_key_props(3))

lemma one_key_props:
  "length (privateKeyHexOf 1) = lengths_privateKey" "isHexString (privateKeyHexOf 1)"
  "hexToNat (drop 2 (privateKeyHexOf 1)) = Some 1"
  by (rule privateKeyHexOf_props; simp)+

lemma zero_key_props:
  "length (privateKeyHexOf 0) = lengths_privateKey" "isHexString (privateKeyHexOf 0)"
  "hexToNat (drop 2 (privateKeyHexOf 0)) = Some 0"
  by (rule privateKeyHexOf_props; simp)+

lemma zero_key_rejected: "assertValidPrivateKey c (privateKeyHexOf 0) \<noteq> None"
  by (simp add: assertValidPrivateKey_def zero_key_props(3) isWithinCurveOrder_def)

lemma secp256k1_G_key_props:
  "length (publicKeyHexOf (basePoint secp256k1)) = lengths_publicKey"
  "isHexString (publicKeyHexOf (basePoint secp256k1))"
  "decodeUncompressed (publicKeyHexOf (basePoint secp256k1)) = Some (basePoint secp256k1)"
  by (rule publicKeyHexOf_on_curve [OF secp256k1_prime_bounds(2) secp256k1_G_on_curve basePoint_finite])+

text \<open>
  Claim C7, as the code has it.  \<^verbatim>\<open>getSharedSecret\<close> rejects a private key of the
  wrong length or not a hex string with \<open>InvalidPrivateKey\<close>, whatever the public key;
  then a public key of the wrong length or not a hex string with \<open>InvalidPublicKey\<close>;
  then a public key that fails the point validation with the validator's own error,
  \<open>PointNotOnCurve\<close>; then a private key out of range with \<open>InvalidPrivateKey\<close>.  The
  library function \<open>noble\<close> is arbitrary in all four: the result is decided before the
  curve multiplication of line 26 is reached.
\<close>

theorem C7_fail_fast_validation:
  "(length priv \<noteq> lengths_privateKey \<or> \<not> isHexString priv \<longrightarrow>
      getSharedSecret c noble H priv pub = Inl InvalidPrivateKey)
   \<and> (length priv = lengths_privateKey \<and> isHexString priv
        \<and> (length pub \<noteq> lengths_publicKey \<or> \<not> isHexString pub) \<longrightarrow>
      getSharedSecret c noble H priv pub = Inl InvalidPublicKey)
   \<and> (length priv = lengths_privateKey \<and> isHexString priv
        \<and> length pub = lengths_publicKey \<and> isHexString pub
        \<and> assertValidPoint c pub \<noteq> None \<longrightarrow>
      getSharedSecret c noble H priv pub = Inl PointNotOnCurve)
   \<and> (length priv = lengths_privateKey \<and> isHexString priv
        \<and> length pub = lengths_publicKey \<and> isHexString pub
        \<and> assertValidPoint c pub = None \<and> assertValidPrivateKey c priv \<noteq> None \<longrightarrow>
      getSharedSecret c noble H priv pub = Inl InvalidPrivateKey)"
  using getSharedSecret_bad_private [of priv c noble H pub]
    getSharedSecret_bad_public [of priv pub c noble H]
    getSharedSecret_bad_point [of priv pub c noble H]
    getSharedSecret_bad_scalar [of priv pub c noble H]
  by blast

theorem C7_fail_fast_validation_witness:
  "\<forall>noble H.
     getSharedSecret secp256k1 noble H ''0x12'' (publicKeyHexOf (basePoint secp256k1)) = Inl InvalidPrivateKey
   \<and> getSharedSecret secp256k1 noble H (privateKeyHexOf 1) ''0x04'' = Inl InvalidPublicKey
   \<and> getSharedSecret secp256k1 noble H (privateKeyHexOf 1) (publicKeyHexOf (Point 0 0)) = Inl PointNotOnCurve
   \<and> getSharedSecret secp256k1 noble H (privateKeyHexOf 0) (publicKeyHexOf (basePoint secp256k1)) = Inl InvalidPrivateKey"
proof (intro allI conjI)
  fix noble :: "string \<Rightarrow> string \<Rightarrow> bool \<Rightarrow> error + byte list" and H :: "byte list \<Rightarrow> 256 word"
  let ?c = secp256k1
  let ?G = "publicKeyHexOf (basePoint secp256k1)"
  have l: "length ''0x12'' \<noteq> lengths_privateKey" by (simp add: lengths_privateKey_def)
  show "getSharedSecret ?c noble H ''0x12'' ?G = Inl InvalidPrivateKey"
    using C7_fail_fast_validation [of "''0x12''" ?c noble H ?G] l by blast
  have m: "length ''0x04'' \<noteq> lengths_publicKey" by (simp add: lengths_publicKey_def)
  show "getSharedSecret ?c noble H (privateKeyHexOf 1) ''0x04'' = Inl InvalidPublicKey"
    using C7_fail_fast_validation [of "privateKeyHexOf 1" ?c noble H "''0x04''"] m one_key_props(1,2)
    by blast
  show "getSharedSecret ?c noble H (privateKeyHexOf 1) (publicKeyHexOf (Point 0 0)) = Inl PointNotOnCurve"
    using C7_fail_fast_validation [of "privateKeyHexOf 1" ?c noble H "publicKeyHexOf (Point 0 0)"]
      one_key_props(1,2) origin_key_props(1,2) origin_rejected
    by blast
  have v: "assertValidPoint ?c ?G = None"
    by (rule assertValidPoint_ok [OF secp256k1_G_key_props(3) secp256k1_G_on_curve])
  show "getSharedSecret ?c noble H (privateKeyHexOf 0) ?G = Inl InvalidPrivateKey"
    using C7_fail_fast_validation [of "privateKeyHexOf 0" ?c noble H ?G]
      zero_key_props(1,2) secp256k1_G_key_props(1,2) v zero_key_rejected [of ?c]
    by blast
qed

theorem C7_curve_membership_counterexample:
  "\<forall>noble H.
     getSharedSecret secp256k1 noble H (privateKeyHexOf 1) (publicKeyHexOf (Point 0 0)) = Inl PointNotOnCurve
   \<and> getSharedSecret secp256k1 noble H (privateKeyHexOf 1) (publicKeyHexOf (Point 0 0)) \<noteq> Inl InvalidPublicKey"
proof (intro allI)
  fix noble :: "string \<Rightarrow> string \<Rightarrow> bool \<Rightarrow> error + byte list" and H :: "byte list \<Rightarrow> 256 word"
  have "getSharedSecret secp256k1 noble H (privateKeyHexOf 1) (publicKeyHexOf (Point 0 0)) = Inl PointNotOnCurve"
    by (rule getSharedSecret_bad_point [OF one_key_props(1,2) origin_key_props(1,2) origin_rejected])
  then show "getSharedSecret secp256k1 noble H (privateKeyHexOf 1) (publicKeyHexOf (Point 0 0)) = Inl PointNotOnCurve
   \<and> getSharedSecret secp256k1 noble H (privateKeyHexOf 1) (publicKeyHexOf (Point 0 0)) \<noteq> Inl InvalidPublicKey"
    by simp
qed

lemma length_toHex_compressed: "length (toHex True P) = 66"
  by (simp add: toHex_def)

lemma compressed_rejected:
  assumes "length priv = lengths_privateKey" "isHexString priv"
  shows "getSharedSecret c noble H priv (''0x'' @ toHex True P) = Inl InvalidPublicKey"
proof -
  have "length (''0x'' @ toHex True P) \<noteq> lengths_publicKey"
    by (simp add: length_toHex_compressed lengths_publicKey_def)
  then show ?thesis
    using getSharedSecret_bad_public [OF assms] by blast
qed

lemma secp256k1_secret_of_G:
  "getSharedSecret secp256k1 (nobleGetSharedSecret secp256k1) H (privateKeyHexOf 1)
     (publicKeyHexOf (basePoint secp256k1))
   = Inr (hex32 (unat (H (natToBytes 32 (point_x (basePoint secp256k1))))))"
  using getSharedSecret_value [OF one_key_props(1,2,3) secp256k1_one_valid
      secp256k1_G_key_props secp256k1_G_on_curve, of H]
  by (simp only: One_nat_def pmul_1)

text \<open>
  Claim C3, as the code has it.  Let the private key pass the length and hex check of
  line 18 (a key that does not is rejected first, with \<open>InvalidPrivateKey\<close>, whatever the
  public key).  Then a public key of any length other than 132 characters, a
  compressed key included, is rejected with \<open>InvalidPublicKey\<close>: the public key is
  accepted only as the uncompressed hex string.  If moreover the private key is a scalar
  within the curve order and the public key a point of the curve, the shared secret is
  the hash of the 32 bytes of the \<open>x\<close>-coordinate of the product point alone: line 26
  asks the library for the compressed encoding and line 28 strips its parity prefix.
  Since only \<open>x\<close> is hashed, the public key with the negated \<open>y\<close> (the other point a
  bare \<open>x\<close>-coordinate can be recovered to) gives the same secret.
\<close>

theorem C3_secret_hashes_x_only:
  assumes "0 < prime c"
    and "length priv = lengths_privateKey" "isHexString priv"
  shows "(hexToNat (drop 2 priv) = Some a \<and> isWithinCurveOrder c a
            \<and> length pub = lengths_publicKey \<and> isHexString pub
            \<and> decodeUncompressed pub = Some B \<and> on_curve c B \<longrightarrow>
          getSharedSecret c (nobleGetSharedSecret c) H priv pub
            = Inr (hex32 (unat (H (natToBytes 32 (point_x (pmul c a B)))))))
       \<and> (hexToNat (drop 2 priv) = Some a \<and> isWithinCurveOrder c a
            \<and> length pub = lengths_publicKey \<and> isHexString pub
            \<and> decodeUncompressed pub = Some B \<and> on_curve c B
            \<and> length pub' = lengths_publicKey \<and> isHexString pub'
            \<and> decodeUncompressed pub' = Some (pneg c B) \<longrightarrow>
          getSharedSecret c (nobleGetSharedSecret c) H priv pub'
            = getSharedSecret c (nobleGetSharedSecret c) H priv pub)
       \<and> (length pub \<noteq> lengths_publicKey \<longrightarrow>
          getSharedSecret c noble H priv pub = Inl InvalidPublicKey)
       \<and> getSharedSecret c noble H priv (''0x'' @ toHex True B) = Inl InvalidPublicKey
       \<and> (length priv0 \<noteq> lengths_privateKey \<or> \<not> isHexString priv0 \<longrightarrow>
          getSharedSecret c noble H priv0 pub = Inl InvalidPrivateKey)"
proof (intro conjI impI)
  assume h: "hexToNat (drop 2 priv) = Some a \<and> isWithinCurveOrder c a
            \<and> length pub = lengths_publicKey \<and> isHexString pub
            \<and> decodeUncompressed pub = Some B \<and> on_curve c B"
  then have k: "hexToNat (drop 2 priv) = Some a" "isWithinCurveOrder c a" by blast+
  show "getSharedSecret c (nobleGetSharedSecret c) H priv pub
            = Inr (hex32 (unat (H (natToBytes 32 (point_x (pmul c a B))))))"
    using getSharedSecret_value [OF assms(2,3) k, of pub B H] h by blast
next
  assume h: "hexToNat (drop 2 priv) = Some a \<and> isWithinCurveOrder c a
            \<and> length pub = lengths_publicKey \<and> isHexString pub
            \<and> decodeUncompressed pub = Some B \<and> on_curve c B
            \<and> length pub' = lengths_publicKey \<and> isHexString pub'
            \<and> decodeUncompressed pub' = Some (pneg c B)"
  then have k: "hexToNat (drop 2 priv) = Some a" "isWithinCurveOrder c a" by blast+
  from h have n: "on_curve c (pneg c B)" using on_curve_pneg [OF assms(1)] by blast
  have "getSharedSecret c (nobleGetSharedSecret c) H priv pub'
          = Inr (hex32 (unat (H (natToBytes 32 (point_x (pmul c a (pneg c B)))))))"
    using getSharedSecret_value [OF assms(2,3) k, of pub' "pneg c B" H] h n by blast
  moreover have "point_x (pmul c a (pneg c B)) = point_x (pmul c a B)"
    by (simp add: pmul_pneg [OF assms(1)])
  moreover have "getSharedSecret c (nobleGetSharedSecret c) H priv pub
          = Inr (hex32 (unat (H (natToBytes 32 (point_x (pmul c a B))))))"
    using getSharedSecret_value [OF assms(2,3) k, of pub B H] h by blast
  ultimately show "getSharedSecret c (nobleGetSharedSecret c) H priv pub'
            = getSharedSecret c (nobleGetSharedSecret c) H priv pub" by simp
next
  assume "length pub \<noteq> lengths_publicKey"
  then show "getSharedSecret c noble H priv pub = Inl InvalidPublicKey"
    using getSharedSecret_bad_public [OF assms(2,3)] by blast
next
  show "getSharedSecret c noble H priv (''0x'' @ toHex True B) = Inl InvalidPublicKey"
    by (rule compressed_rejected [OF assms(2,3)])
next
  assume "length priv0 \<noteq> lengths_privateKey \<or> \<not> isHexString priv0"
  then show "getSharedSecret c noble H priv0 pub = Inl InvalidPrivateKey"
    by (rule getSharedSecret_bad_private)
qed

theorem C3_secret_hashes_x_only_witness:
  "\<forall>noble H.
     getSharedSecret secp256k1 (nobleGetSharedSecret secp256k1) H (privateKeyHexOf 1)
          (publicKeyHexOf (basePoint secp256k1))
        = Inr (hex32 (unat (H (natToBytes 32 (point_x (pmul secp256k1 1 (basePoint secp256k1)))))))
   \<and> getSharedSecret secp256k1 (nobleGetSharedSecret secp256k1) H (privateKeyHexOf 1)
          (publicKeyHexOf (pneg secp256k1 (basePoint secp256k1)))
        = getSharedSecret secp256k1 (nobleGetSharedSecret secp256k1) H (privateKeyHexOf 1)
          (publicKeyHexOf (basePoint secp256k1))
   \<and> getSharedSecret secp256k1 noble H (privateKeyHexOf 0)
          (''0x'' @ toHex True (basePoint secp256k1)) = Inl InvalidPublicKey
   \<and> getSharedSecret secp256k1 noble H (privateKeyHexOf 0) ''0x04'' = Inl InvalidPublicKey
   \<and> getSharedSecret secp256k1 noble H ''0x12''
          (''0x'' @ toHex True (basePoint secp256k1)) = Inl InvalidPrivateKey"
proof (intro allI)
  fix noble :: "string \<Rightarrow> string \<Rightarrow> bool \<Rightarrow> error + byte list" and H :: "byte list \<Rightarrow> 256 word"
  let ?c = secp256k1
  let ?G = "basePoint ?c"
  note p = secp256k1_prime_bounds
  have nG: "on_curve ?c (pneg ?c ?G)" by (rule on_curve_pneg [OF p(1) secp256k1_G_on_curve])
  note b' = publicKeyHexOf_on_curve [OF p(2) nG pneg_finite [OF basePoint_finite]]
  have l: "length ''0x12'' \<noteq> lengths_privateKey" by (simp add: lengths_privateKey_def)
  have m: "length ''0x04'' \<noteq> lengths_publicKey" by (simp add: lengths_publicKey_def)
  note t1 = C3_secret_hashes_x_only [OF p(1) one_key_props(1,2),
        of 1 "publicKeyHexOf ?G" ?G H "publicKeyHexOf (pneg ?c ?G)" noble "''0x12''"]
  note t0 = C3_secret_hashes_x_only [OF p(1) zero_key_props(1,2),
        of 0 "''0x04''" ?G H "''0x04''" noble "''0x12''"]
  have a: "getSharedSecret ?c (nobleGetSharedSecret ?c) H (privateKeyHexOf 1) (publicKeyHexOf ?G)
        = Inr (hex32 (unat (H (natToBytes 32 (point_x (pmul ?c 1 ?G))))))"
    using t1 one_key_props(3) secp256k1_one_valid secp256k1_G_key_props secp256k1_G_on_curve
    by blast
  have b: "getSharedSecret ?c (nobleGetSharedSecret ?c) H (privateKeyHexOf 1) (publicKeyHexOf (pneg ?c ?G))
        = getSharedSecret ?c (nobleGetSharedSecret ?c) H (privateKeyHexOf 1) (publicKeyHexOf ?G)"
    using t1 one_key_props(3) secp256k1_one_valid secp256k1_G_key_props secp256k1_G_on_curve b'
    by blast
  have c: "getSharedSecret ?c noble H (privateKeyHexOf 0) (''0x'' @ toHex True ?G) = Inl InvalidPublicKey"
    using t0 by blast
  have d: "getSharedSecret ?c noble H (privateKeyHexOf 0) ''0x04'' = Inl InvalidPublicKey"
    using t0 m by blast
  have e: "getSharedSecret ?c noble H ''0x12'' (''0x'' @ toHex True ?G) = Inl InvalidPrivateKey"
    using C3_secret_hashes_x_only [OF p(1) one_key_props(1,2),
        of 1 "''0x'' @ toHex True ?G" ?G H "''0x04''" noble "''0x12''"] l
    by blast
  show "getSharedSecret ?c (nobleGetSharedSecret ?c) H (privateKeyHexOf 1) (publicKeyHexOf ?G)
        = Inr (hex32 (unat (H (natToBytes 32 (point_x (pmul ?c 1 ?G))))))
   \<and> getSharedSecret ?c (nobleGetSharedSecret ?c) H (privateKeyHexOf 1) (publicKeyHexOf (pneg ?c ?G))
        = getSharedSecret ?c (nobleGetSharedSecret ?c) H (privateKeyHexOf 1) (publicKeyHexOf ?G)
   \<and> getSharedSecret ?c noble H (privateKeyHexOf 0) (''0x'' @ toHex True ?G) = Inl InvalidPublicKey
   \<and> getSharedSecret ?c noble H (privateKeyHexOf 0) ''0x04'' = Inl InvalidPublicKey
   \<and> getSharedSecret ?c noble H ''0x12'' (''0x'' @ toHex True ?G) = Inl InvalidPrivateKey"
    using a b c d e by blast
qed

theorem C3_uncompressed_payload_counterexample:
  "\<not> (\<forall>H. getSharedSecret secp256k1 (nobleGetSharedSecret secp256k1) H (privateKeyHexOf 1)
            (publicKeyHexOf (basePoint secp256k1))
          = Inr (hex32 (unat (H (natToBytes 32 (point_x (basePoint secp256k1))
                                  @ natToBytes 32 (point_y (basePoint secp256k1)))))))
   \<and> (\<forall>H. getSharedSecret secp256k1 (nobleGetSharedSecret secp256k1) H (privateKeyHexOf 1)
            (''0x'' @ toHex True (basePoint secp256k1)) = Inl InvalidPublicKey)"
proof (intro conjI notI allI)
  let ?G = "basePoint secp256k1"
  let ?H = "\<lambda>bs :: byte list. (of_nat (length bs) :: 256 word)"
  assume "\<forall>H. getSharedSecret secp256k1 (nobleGetSharedSecret secp256k1) H (privateKeyHexOf 1)
            (publicKeyHexOf ?G)
          = Inr (hex32 (unat (H (natToBytes 32 (point_x ?G) @ natToBytes 32 (point_y ?G)))))"
  then have "getSharedSecret secp256k1 (nobleGetSharedSecret secp256k1) ?H (privateKeyHexOf 1)
            (publicKeyHexOf ?G)
          = Inr (hex32 (unat (?H (natToBytes 32 (point_x ?G) @ natToBytes 32 (point_y ?G)))))"
    by (rule allE)
  then have "hex32 (unat (?H (natToBytes 32 (point_x ?G))))
      = hex32 (unat (?H (natToBytes 32 (point_x ?G) @ natToBytes 32 (point_y ?G))))"
    unfolding secp256k1_secret_of_G by (rule sum.inject(2) [THEN iffD1])
  then have "hex32 32 = hex32 64" by simp
  then have "(32::nat) = 64" by (rule hex32_inject [rotated 2]) simp_all
  then show False by simp
next
  fix H
  show "getSharedSecret secp256k1 (nobleGetSharedSecret secp256k1) H (privateKeyHexOf 1)
            (''0x'' @ toHex True (basePoint secp256k1)) = Inl InvalidPublicKey"
    by (rule compressed_rejected [OF one_key_props(1,2)])
qed

section \<open>The scan loop: propagation of errors\<close>

lemma scanStep_error:
  "computeReceivingAddress c noble H keccak receiver ann = Inl e \<Longrightarrow>
   scanStep c noble H keccak now receiver acc ann = Inl e"
  by (simp add: scanStep_def)

lemma scanStep_ok:
  "computeReceivingAddress c noble H keccak receiver ann = Inr a \<Longrightarrow>
   \<exists>acc'. scanStep c noble H keccak now receiver acc ann = Inr acc'"
  by (simp add: scanStep_def Let_def)

lemma reduceScan_all_ok:
  "\<forall>ann \<in> set anns. \<exists>a. computeReceivingAddress c noble H keccak receiver ann = Inr a \<Longrightarrow>
   \<exists>acc'. reduceScan c noble H keccak now receiver acc anns = Inr acc'"
proof (induction anns arbitrary: acc)
  case Nil
  then show ?case by simp
next
  case (Cons ann anns)
  then obtain a where "computeReceivingAddress c noble H keccak receiver ann = Inr a" by auto
  then obtain acc' where "scanStep c noble H keccak now receiver acc ann = Inr acc'"
    using scanStep_ok by blast
  then show ?case using Cons by simp
qed

lemma reduceScan_first_failure:
  "\<forall>ann \<in> set pre. \<exists>a. computeReceivingAddress c noble H keccak receiver ann = Inr a \<Longrightarrow>
   computeReceivingAddress c noble H keccak receiver bad = Inl e \<Longrightarrow>
   reduceScan c noble H keccak now receiver acc (pre @ bad # rest) = Inl e"
proof (induction pre arbitrary: acc)
  case Nil
  then show ?case by (simp add: scanStep_error)
next
  case (Cons ann pre)
  then obtain a where "computeReceivingAddress c noble H keccak receiver ann = Inr a" by auto
  then obtain acc' where "scanStep c noble H keccak now receiver acc ann = Inr acc'"
    using scanStep_ok by blast
  then show ?case using Cons by simp
qed

lemma liftX_out_of_range: "\<not> x < prime c \<Longrightarrow> liftX c x b = None"
  by (simp add: liftX_def on_curve_def Let_def)

lemma recovery_fails_beyond_prime:
  "n < 2 ^ 256 \<Longrightarrow> \<not> int n < prime c \<Longrightarrow> getUncompressedFromX c (hex32 n) = Inl PointRecoveryFailed"
  by (simp add: getUncompressedFromX_def BigNumber_from_hex32 liftX_out_of_range)

lemma compute_recovery_failure:
  "getUncompressedFromX c (pkx ann) = Inl e \<Longrightarrow>
   computeReceivingAddress c noble H keccak receiver ann = Inl e"
  by (simp add: computeReceivingAddress_def)

lemma scanAnnouncements_all_ok:
  "\<forall>ann \<in> set anns. \<exists>a. computeReceivingAddress c noble H keccak receiver ann = Inr a \<Longrightarrow>
   \<exists>tt. scanAnnouncements c noble H keccak now receiver anns = Inr tt"
  using reduceScan_all_ok [of anns c noble H keccak receiver now "(0, [0, 0, 0, 0, 0, 0, 0])"]
  by (auto simp: scanAnnouncements_def)

lemma scanAnnouncements_first_failure:
  "\<forall>ann \<in> set pre. \<exists>a. computeReceivingAddress c noble H keccak receiver ann = Inr a \<Longrightarrow>
   computeReceivingAddress c noble H keccak receiver bad = Inl e \<Longrightarrow>
   scanAnnouncements c noble H keccak now receiver (pre @ bad # rest) = Inl e"
  using reduceScan_first_failure [of pre c noble H keccak receiver bad e now "(0, [0, 0, 0, 0, 0, 0, 0])" rest]
  by (simp add: scanAnnouncements_def)

lemma unrecoverable_fails:
  "computeReceivingAddress secp256k1 noble H keccak receiver unrecoverable = Inl PointRecoveryFailed"
proof -
  have "getUncompressedFromX secp256k1
          (hex32 115792089237316195423570985008687907853269984665640564039457584007913129639935)
        = Inl PointRecoveryFailed"
    by (rule recovery_fails_beyond_prime) (simp_all add: secp256k1_fields)
  then show ?thesis
    by (intro compute_recovery_failure) (simp add: unrecoverable_def)
qed

text \<open>
  Claim C6, as the code has it.  The loop has no containment of a failure: the reducer
  has no handler, so the first announcement whose processing throws (failed point
  recovery included) ends the batch with that error, and the announcements after it
  are not processed.  The loop returns its totals when every announcement of the batch
  is processed without an error.
\<close>

theorem C6_first_failure_ends_batch:
  "((\<forall>ann \<in> set anns. \<exists>a. computeReceivingAddress c noble H keccak receiver ann = Inr a) \<longrightarrow>
      (\<exists>tt. scanAnnouncements c noble H keccak now receiver anns = Inr tt))
   \<and> ((\<forall>ann \<in> set pre. \<exists>a. computeReceivingAddress c noble H keccak receiver ann = Inr a)
        \<and> computeReceivingAddress c noble H keccak receiver bad = Inl e \<longrightarrow>
      scanAnnouncements c noble H keccak now receiver (pre @ bad # rest) = Inl e)"
  using scanAnnouncements_all_ok [of anns c noble H keccak receiver now]
    scanAnnouncements_first_failure [of pre c noble H keccak receiver bad e now rest]
  by blast

theorem C6_first_failure_ends_batch_witness:
  "\<forall>noble H keccak now receiver rest.
     (\<exists>tt. scanAnnouncements secp256k1 noble H keccak now receiver [] = Inr tt)
   \<and> scanAnnouncements secp256k1 noble H keccak now receiver ([] @ unrecoverable # rest)
       = Inl PointRecoveryFailed"
proof (intro allI)
  fix noble :: "string \<Rightarrow> string \<Rightarrow> bool \<Rightarrow> error + byte list"
    and H keccak :: "byte list \<Rightarrow> 256 word" and now :: "nat \<Rightarrow> int"
    and receiver :: Wallet and rest :: "Announcement list"
  have e: "\<forall>ann \<in> set []. \<exists>a. computeReceivingAddress secp256k1 noble H keccak receiver ann = Inr a"
    by simp
  show "(\<exists>tt. scanAnnouncements secp256k1 noble H keccak now receiver [] = Inr tt)
   \<and> scanAnnouncements secp256k1 noble H keccak now receiver ([] @ unrecoverable # rest)
       = Inl PointRecoveryFailed"
    using C6_first_failure_ends_batch [of "[]" secp256k1 noble H keccak receiver now "[]"
        unrecoverable PointRecoveryFailed rest]
      e unrecoverable_fails [of noble H keccak receiver]
    by blast
qed

theorem C6_batch_terminated_counterexample:
  "\<forall>noble H keccak now receiver rest.
     scanAnnouncements secp256k1 noble H keccak now receiver (unrecoverable # rest)
       = Inl PointRecoveryFailed"
proof (intro allI)
  fix noble :: "string \<Rightarrow> string \<Rightarrow> bool \<Rightarrow> error + byte list"
    and H keccak :: "byte list \<Rightarrow> 256 word" and now :: "nat \<Rightarrow> int"
    and receiver :: Wallet and rest :: "Announcement list"
  have e: "\<forall>ann \<in> set []. \<exists>a. computeReceivingAddress secp256k1 noble H keccak receiver ann = Inr a"
    by simp
  show "scanAnnouncements secp256k1 noble H keccak now receiver (unrecoverable # rest)
       = Inl PointRecoveryFailed"
    using scanAnnouncements_first_failure [OF e unrecoverable_fails]
    by simp
qed

section \<open>Products of scalars: the group law and the symmetry of the shared secret\<close>
























lemma on_curve_Infinity [simp]: "on_curve c Infinity"
  by (simp add: on_curve_def)
















section \<open>Recovery of a point from its abscissa\<close>

subsection \<open>Fermat's little theorem\<close>







subsection \<open>The square root in a prime field with \<open>p mod 4 = 3\<close>\<close>










subsection \<open>Multiples of the base point of \<open>secp256k1\<close>\<close>












subsection \<open>What the recovery returns\<close>








end
